theory Spec2Isabelle
  imports Main "HOL-Library.Sublist"
begin

section \<open>Server-sent events: fetchStream and parseEvent\<close>

text \<open>
  The client reads the replay stream with \<^verbatim>\<open>fetchStream\<close> (module core/sse, whose code is
  quoted in docs/deerflow-async-stream-architecture.md). JavaScript strings are modelled as
  \<^typ>\<open>string\<close>: the code only looks for the ASCII separators \<^verbatim>\<open>"\n\n"\<close>, \<^verbatim>\<open>"\n"\<close> and
  \<^verbatim>\<open>": "\<close>, so one list element stands for one code unit.
\<close>

abbreviation nl :: char where
  "nl \<equiv> CHR 0x0A"

text \<open>\<^verbatim>\<open>s.indexOf(pat)\<close>: the first position at which \<open>pat\<close> occurs; \<open>None\<close> is the \<open>-1\<close> of
  JavaScript.\<close>

fun indexOf :: "string \<Rightarrow> string \<Rightarrow> nat option" where
  "indexOf [] pat = (if pat = [] then Some 0 else None)"
| "indexOf (c # cs) pat =
     (if prefix pat (c # cs) then Some 0 else map_option Suc (indexOf cs pat))"

text \<open>\<^verbatim>\<open>chunk.split("\n")\<close>: the pieces between newlines; the empty string gives one empty piece.\<close>

fun split_nl :: "string \<Rightarrow> string list" where
  "split_nl [] = [[]]"
| "split_nl (c # cs) =
     (if c = nl then [] # split_nl cs
      else (case split_nl cs of l # ls \<Rightarrow> (c # l) # ls | [] \<Rightarrow> [[c]]))"

record StreamEvent =
  event :: string
  data :: "string option"

text \<open>The body of the \<^verbatim>\<open>for (const line of ...)\<close> loop of \<^verbatim>\<open>parseEvent\<close>, on the pair
  \<open>(resultEvent, resultData)\<close>; \<open>None\<close> is \<^verbatim>\<open>null\<close>.\<close>

definition parseEvent_line :: "string \<times> string option \<Rightarrow> string \<Rightarrow> string \<times> string option" where
  "parseEvent_line st line =
     (case indexOf line '': '' of
        None \<Rightarrow> st
      | Some pos \<Rightarrow>
          (let key = take pos line; val = drop (pos + 2) line
           in if key = ''event'' then (val, snd st)
              else if key = ''data'' then (fst st, Some val)
              else st))"

fun parseEvent_loop :: "string list \<Rightarrow> string \<times> string option \<Rightarrow> string \<times> string option" where
  "parseEvent_loop [] st = st"
| "parseEvent_loop (line # lines) st = parseEvent_loop lines (parseEvent_line st line)"

text \<open>\<^verbatim>\<open>parseEvent\<close>: \<open>None\<close> is the \<^verbatim>\<open>undefined\<close> it returns for a chunk without event.\<close>

definition parseEvent :: "string \<Rightarrow> StreamEvent option" where
  "parseEvent chunk =
     (case parseEvent_loop (split_nl chunk) (''message'', None) of
        (resultEvent, resultData) \<Rightarrow>
          if resultEvent = ''message'' \<and> resultData = None then None
          else Some \<lparr>event = resultEvent, data = resultData\<rparr>)"

text \<open>The inner \<^verbatim>\<open>while (true)\<close> loop of \<^verbatim>\<open>fetchStream\<close>: it cuts the buffer at every
  \<^verbatim>\<open>"\n\n"\<close>, yields the events parsed from the chunks and leaves the rest in the buffer.\<close>

function drain :: "string \<Rightarrow> StreamEvent list \<times> string" where
  "drain buffer =
     (case indexOf buffer [nl, nl] of
        None \<Rightarrow> ([], buffer)
      | Some index \<Rightarrow>
          (case drain (drop (index + 2) buffer) of
             (evs, rest) \<Rightarrow>
               ((case parseEvent (take index buffer) of
                   Some e \<Rightarrow> e # evs
                 | None \<Rightarrow> evs), rest)))"
  by pat_completeness auto
termination
proof (relation "measure length")
  show "wf (measure length)" by simp
next
  fix buffer :: string and index :: nat
  have bound: "indexOf s pat = Some i \<Longrightarrow> i + length pat \<le> length s" for s pat i
  proof (induction s arbitrary: i)
    case Nil
    then show ?case by (simp split: if_splits)
  next
    case (Cons c cs)
    show ?case
    proof (cases "prefix pat (c # cs)")
      case True
      with Cons.prems prefix_length_le [of pat "c # cs"] show ?thesis by simp
    next
      case False
      with Cons.prems obtain j where "indexOf cs pat = Some j" "i = Suc j" by auto
      with Cons.IH show ?thesis by fastforce
    qed
  qed
  assume "indexOf buffer [nl, nl] = Some index"
  then have "index + 2 \<le> length buffer"
    using bound [of buffer "[nl, nl]" index] by simp
  then show "(drop (index + 2) buffer, buffer) \<in> measure length" by simp
qed

declare drain.simps [simp del]

text \<open>The outer loop: one iteration for every value the reader delivers, until \<open>done\<close>.\<close>

fun fetchStream_loop :: "string \<Rightarrow> string list \<Rightarrow> StreamEvent list" where
  "fetchStream_loop buffer [] = []"
| "fetchStream_loop buffer (v # vs) =
     (case drain (buffer @ v) of (evs, buffer') \<Rightarrow> evs @ fetchStream_loop buffer' vs)"

text \<open>\<^verbatim>\<open>fetchStream\<close> itself. The response is given by its status and by the text values its
  body delivers until \<open>done\<close> (\<open>None\<close>: the response has no readable body). Both throws
  happen before the first event is yielded, so a run is either an error or the list of the
  events yielded.\<close>

datatype fetch_error = FailedToFetch nat | BodyNotReadable

definition fetchStream :: "nat \<Rightarrow> string list option \<Rightarrow> fetch_error + StreamEvent list" where
  "fetchStream status body =
     (if status \<noteq> 200 then Inl (FailedToFetch status)
      else case body of
             None \<Rightarrow> Inl BodyNotReadable
           | Some vs \<Rightarrow> Inr (fetchStream_loop [] vs))"

text \<open>The wire format of the replay endpoint: a frame is \<^verbatim>\<open>event: <kind>\ndata: <json>\n\n\<close>;
  the chunk is the frame without the blank line that ends it.\<close>

definition sse_chunk :: "string \<Rightarrow> string \<Rightarrow> string" where
  "sse_chunk kind json = ''event: '' @ kind @ [nl] @ ''data: '' @ json"

definition sse_frame :: "string \<times> string \<Rightarrow> string" where
  "sse_frame f = sse_chunk (fst f) (snd f) @ [nl, nl]"

definition frame_event :: "string \<times> string \<Rightarrow> StreamEvent" where
  "frame_event f = \<lparr>event = fst f, data = Some (snd f)\<rparr>"

definition single_line :: "string \<Rightarrow> bool" where
  "single_line s = (nl \<notin> set s)"

section \<open>Event types of the client (web/src/core/api/types.ts)\<close>

text \<open>
  JavaScript values, as far as \<^verbatim>\<open>JSON.parse\<close> can produce them. An object is the list of its
  properties; a property is read with \<^const>\<open>map_of\<close>. Numbers are integers here: the code below
  only asks whether a value is a number.
\<close>

datatype json =
    JNull
  | JBool bool
  | JNum int
  | JStr string
  | JArr "json list"
  | JObj "(string \<times> json) list"

text \<open>A TypeScript type is the set of the values that inhabit it: a predicate on \<^typ>\<open>json\<close>.\<close>

fun is_string :: "json \<Rightarrow> bool" where
  "is_string (JStr s) = True"
| "is_string j = False"

fun is_number :: "json \<Rightarrow> bool" where
  "is_number (JNum n) = True"
| "is_number j = False"

text \<open>A union of string literal types, such as \<^verbatim>\<open>"user" | "assistant" | "tool"\<close>.\<close>

fun is_literal :: "string list \<Rightarrow> json \<Rightarrow> bool" where
  "is_literal ss (JStr s) = (s \<in> set ss)"
| "is_literal ss j = False"

text \<open>\<^verbatim>\<open>T[]\<close>.\<close>

fun is_array :: "(json \<Rightarrow> bool) \<Rightarrow> json \<Rightarrow> bool" where
  "is_array T (JArr xs) = list_all T xs"
| "is_array T j = False"

text \<open>\<^verbatim>\<open>Record<string, unknown>\<close>.\<close>

fun is_record :: "json \<Rightarrow> bool" where
  "is_record (JObj ps) = True"
| "is_record j = False"

text \<open>An object type, given by what it asks of the properties.\<close>

fun is_object :: "((string \<times> json) list \<Rightarrow> bool) \<Rightarrow> json \<Rightarrow> bool" where
  "is_object T (JObj ps) = T ps"
| "is_object T j = False"

text \<open>A required property \<^verbatim>\<open>k: T\<close> and an optional one \<^verbatim>\<open>k?: T\<close>.\<close>

definition has_prop :: "string \<Rightarrow> (json \<Rightarrow> bool) \<Rightarrow> (string \<times> json) list \<Rightarrow> bool" where
  "has_prop k T ps = (case map_of ps k of None \<Rightarrow> False | Some v \<Rightarrow> T v)"

definition opt_prop :: "string \<Rightarrow> (json \<Rightarrow> bool) \<Rightarrow> (string \<times> json) list \<Rightarrow> bool" where
  "opt_prop k T ps = (case map_of ps k of None \<Rightarrow> True | Some v \<Rightarrow> T v)"

definition is_ToolCall :: "json \<Rightarrow> bool" where
  "is_ToolCall =
     is_object (\<lambda>ps. has_prop ''type'' (is_literal [''tool_call'']) ps \<and>
                     has_prop ''id'' is_string ps \<and>
                     has_prop ''name'' is_string ps \<and>
                     has_prop ''args'' is_record ps)"

definition is_ToolCallChunk :: "json \<Rightarrow> bool" where
  "is_ToolCallChunk =
     is_object (\<lambda>ps. has_prop ''type'' (is_literal [''tool_call_chunk'']) ps \<and>
                     has_prop ''index'' is_number ps \<and>
                     has_prop ''id'' is_string ps \<and>
                     has_prop ''name'' is_string ps \<and>
                     has_prop ''args'' is_string ps)"

text \<open>Modelled from the spec: the type \<^verbatim>\<open>Option\<close> is imported from core/messages, which is not
  among the sources. The spec calls it a response option of an interrupt, and the interrupt
  example of the architecture document gives every option a \<^verbatim>\<open>text\<close> and a \<^verbatim>\<open>value\<close>.\<close>

definition is_Option :: "json \<Rightarrow> bool" where
  "is_Option = is_object (\<lambda>ps. has_prop ''text'' is_string ps \<and> has_prop ''value'' is_string ps)"

text \<open>\<^verbatim>\<open>GenericEvent<T, D>\<close>: the type tag \<open>T\<close> and a \<^verbatim>\<open>data\<close> object that has the five common
  properties and those of \<open>D\<close>.\<close>

definition is_GenericEvent :: "string \<Rightarrow> ((string \<times> json) list \<Rightarrow> bool) \<Rightarrow> json \<Rightarrow> bool" where
  "is_GenericEvent T D =
     is_object (\<lambda>obj.
       has_prop ''type'' (is_literal [T]) obj \<and>
       has_prop ''data''
         (is_object (\<lambda>ps.
            has_prop ''id'' is_string ps \<and>
            has_prop ''thread_id'' is_string ps \<and>
            has_prop ''agent''
              (is_literal [''coordinator'', ''planner'', ''researcher'', ''coder'', ''reporter'']) ps \<and>
            has_prop ''role'' (is_literal [''user'', ''assistant'', ''tool'']) ps \<and>
            opt_prop ''finish_reason''
              (is_literal [''stop'', ''tool_calls'', ''interrupt'', ''completed'']) ps \<and>
            D ps)) obj)"

definition is_MessageChunkEvent :: "json \<Rightarrow> bool" where
  "is_MessageChunkEvent =
     is_GenericEvent ''message_chunk''
       (\<lambda>ps. opt_prop ''content'' is_string ps \<and> opt_prop ''reasoning_content'' is_string ps)"

definition is_ToolCallsEvent :: "json \<Rightarrow> bool" where
  "is_ToolCallsEvent =
     is_GenericEvent ''tool_calls''
       (\<lambda>ps. has_prop ''tool_calls'' (is_array is_ToolCall) ps \<and>
             has_prop ''tool_call_chunks'' (is_array is_ToolCallChunk) ps)"

definition is_ToolCallChunksEvent :: "json \<Rightarrow> bool" where
  "is_ToolCallChunksEvent =
     is_GenericEvent ''tool_call_chunks''
       (\<lambda>ps. has_prop ''tool_call_chunks'' (is_array is_ToolCallChunk) ps)"

definition is_ToolCallResultEvent :: "json \<Rightarrow> bool" where
  "is_ToolCallResultEvent =
     is_GenericEvent ''tool_call_result''
       (\<lambda>ps. has_prop ''tool_call_id'' is_string ps \<and> opt_prop ''content'' is_string ps)"

definition is_InterruptEvent :: "json \<Rightarrow> bool" where
  "is_InterruptEvent =
     is_GenericEvent ''interrupt'' (\<lambda>ps. has_prop ''options'' (is_array is_Option) ps)"

definition is_ReplayEndEvent :: "json \<Rightarrow> bool" where
  "is_ReplayEndEvent =
     is_GenericEvent ''replay_end'' (\<lambda>ps. opt_prop ''message'' is_string ps)"

definition is_ErrorEvent :: "json \<Rightarrow> bool" where
  "is_ErrorEvent =
     is_GenericEvent ''error'' (\<lambda>ps. has_prop ''message'' is_string ps)"

definition is_ResearchEndEvent :: "json \<Rightarrow> bool" where
  "is_ResearchEndEvent =
     is_GenericEvent ''research_end''
       (\<lambda>ps. has_prop ''research_id'' is_string ps \<and> has_prop ''status'' (is_literal [''completed'']) ps)"

text \<open>The union \<^verbatim>\<open>ChatEvent\<close>, in the order of the source.\<close>

definition is_ChatEvent :: "json \<Rightarrow> bool" where
  "is_ChatEvent e =
     (is_MessageChunkEvent e \<or> is_ToolCallsEvent e \<or> is_ToolCallChunksEvent e \<or>
      is_ToolCallResultEvent e \<or> is_InterruptEvent e \<or> is_ReplayEndEvent e \<or>
      is_ErrorEvent e \<or> is_ResearchEndEvent e)"

text \<open>The \<^verbatim>\<open>type\<close> of an event value and the properties of its \<^verbatim>\<open>data\<close> object.\<close>

fun event_type :: "json \<Rightarrow> string option" where
  "event_type (JObj obj) = (case map_of obj ''type'' of Some (JStr t) \<Rightarrow> Some t | _ \<Rightarrow> None)"
| "event_type j = None"

fun event_data :: "json \<Rightarrow> (string \<times> json) list option" where
  "event_data (JObj obj) = (case map_of obj ''data'' of Some (JObj ps) \<Rightarrow> Some ps | _ \<Rightarrow> None)"
| "event_data j = None"

text \<open>The event kinds of the wire, as the architecture document lists them under the supported
  event types.\<close>

definition canonical_kinds :: "string list" where
  "canonical_kinds =
     [''message_chunk'', ''tool_calls'', ''tool_call_chunks'', ''tool_call_result'',
      ''interrupt'', ''research_start'', ''research_end'', ''error'', ''replay_end'']"

text \<open>The four properties every payload is said to carry.\<close>

definition common_fields :: "string list" where
  "common_fields = [''id'', ''thread_id'', ''agent'', ''role'']"

text \<open>A payload carries a field when it is an object that has a property of that name.\<close>

fun carries :: "json \<Rightarrow> string \<Rightarrow> bool" where
  "carries (JObj ps) k = (map_of ps k \<noteq> None)"
| "carries j k = False"

text \<open>A value of \<^verbatim>\<open>GenericEvent<T, D>\<close> with fixed common properties, for examples.\<close>

definition sample_event :: "string \<Rightarrow> (string \<times> json) list \<Rightarrow> json" where
  "sample_event T extra = JObj [(''type'', JStr T), (''data'', JObj ([(''id'', JStr ''m1''),
     (''thread_id'', JStr ''t1''), (''agent'', JStr ''planner''), (''role'', JStr ''assistant'')] @ extra))]"

section \<open>The chat client\<close>

text \<open>The functions \<^verbatim>\<open>chatStream\<close>, \<^verbatim>\<open>chatReplayStreamFromAPI\<close> and \<^verbatim>\<open>checkThreadRunningTask\<close>
  of the module core/api, whose code is quoted in the architecture document.\<close>

text \<open>\<^verbatim>\<open>s.includes(pat)\<close>.\<close>

definition str_includes :: "string \<Rightarrow> string \<Rightarrow> bool" where
  "str_includes s pat = (indexOf s pat \<noteq> None)"

text \<open>
  What \<^verbatim>\<open>fetch\<close> gives: the promise rejects (no connection, or the request was aborted), or
  there is a response with its \<^verbatim>\<open>ok\<close> flag and what reading its body gives.
\<close>

datatype 'a fetch_result = Rejected | Response bool 'a

text \<open>The parameters of \<^verbatim>\<open>chatStream\<close>. The resources and the MCP settings are only passed
  on to the server; they are kept as JSON values.\<close>

record chat_params =
  thread_id :: string
  resources :: "json option"
  auto_accepted_plan :: bool
  max_plan_iterations :: int
  max_step_num :: int
  max_search_results :: "int option"
  interrupt_feedback :: "string option"
  enable_deep_thinking :: "bool option"
  enable_background_investigation :: bool
  report_style :: "string option"
  mcp_settings :: "json option"

text \<open>The body of the POST request: the user message, as the only element of \<^verbatim>\<open>messages\<close>
  with its role and content, and the parameters, field by field.\<close>

record task_config = chat_params +
  messages :: "(string \<times> string) list"

text \<open>A request, as far as the code determines it. The \<open>url\<close> is the path handed to
  \<^verbatim>\<open>resolveServiceURL\<close> (which is not among the sources); the query is the list of pairs the
  \<^verbatim>\<open>URLSearchParams\<close> object is built from.\<close>

record request =
  http_method :: string
  url :: string
  query :: "(string \<times> string) list"
  headers :: "(string \<times> string) list"
  body :: "task_config option"

text \<open>What the functions throw: a rejected \<^verbatim>\<open>fetch\<close>; the POST answered with a response that is
  not OK; a body or an event that is not JSON; the abort signal seen by a waiting loop; a
  failure of \<^verbatim>\<open>fetchStream\<close>; an \<^verbatim>\<open>error\<close> event, with its data; a running-task check answered
  with a response that is not OK.\<close>

datatype chat_error =
    FetchRejected
  | CreateAsyncTaskFailed
  | JsonSyntaxError
  | UserCancelled
  | StreamFailed fetch_error
  | TaskExecutionError "string option"
  | CheckRunningTaskFailed

text \<open>A run of a generator: the requests it made, the events it yielded, and the error it
  threw, if it did not return.\<close>

record chat_run =
  requests :: "request list"
  yielded :: "json list"
  thrown :: "chat_error option"

text \<open>
  The world \<^verbatim>\<open>chatStream\<close> runs in: the build flag and the query string of the page, the
  answer of \<^verbatim>\<open>extractReplayIdFromSearchParams\<close> (not among the sources), the responses of the
  server to the POST, to the \<open>k\<close>-th quick check, to the \<open>k\<close>-th status check and to the replay
  request, whether the abort signal is set when the \<open>k\<close>-th iteration of either loop tests
  it, \<^verbatim>\<open>JSON.parse\<close> (\<open>None\<close>: it throws), and the run of the static replay of recorded files
  (\<^verbatim>\<open>chatReplayStream\<close>, which reads files of the site). The payload of the response to the
  POST is the \<^verbatim>\<open>task_id\<close> of its JSON body (\<open>None\<close>: the body is not JSON), that of a quick
  check is the text of the body, that of a status check is the \<^verbatim>\<open>status\<close> of the task
  information; the replay response is its status with the text values of its body
  (\<open>None\<close>: \<^verbatim>\<open>fetch\<close> rejects).
\<close>

record chat_env =
  static_website_only :: bool
  location_search :: string
  replayId :: "string option"
  async_response :: "string option fetch_result"
  quick_check :: "nat \<Rightarrow> string fetch_result"
  status_check :: "nat \<Rightarrow> string option fetch_result"
  aborted_quick :: "nat \<Rightarrow> bool"
  aborted_status :: "nat \<Rightarrow> bool"
  replay_response :: "(nat \<times> string list option) option"
  JSON_parse :: "string option \<Rightarrow> json option"
  static_replay :: chat_run

definition async_request :: "string \<Rightarrow> chat_params \<Rightarrow> request" where
  "async_request userMessage params =
     \<lparr>http_method = ''POST'', url = ''chat/async'', query = [],
      headers = [(''Content-Type'', ''application/json'')],
      body = Some
        \<lparr>thread_id = thread_id params,
         resources = resources params,
         auto_accepted_plan = auto_accepted_plan params,
         max_plan_iterations = max_plan_iterations params,
         max_step_num = max_step_num params,
         max_search_results = max_search_results params,
         interrupt_feedback = interrupt_feedback params,
         enable_deep_thinking = enable_deep_thinking params,
         enable_background_investigation = enable_background_investigation params,
         report_style = report_style params,
         mcp_settings = mcp_settings params,
         messages = [(''user'', userMessage)]\<rparr>\<rparr>"

definition quickCheck_request :: "chat_params \<Rightarrow> string \<Rightarrow> request" where
  "quickCheck_request params task_id =
     \<lparr>http_method = ''GET'', url = ''chat/replay'',
      query = [(''thread_id'', thread_id params), (''query_id'', task_id),
               (''continuous'', ''false''), (''offset'', ''0'')],
      headers = [(''Range'', ''bytes=0-100'')], body = None\<rparr>"

definition status_request :: "string \<Rightarrow> request" where
  "status_request task_id =
     \<lparr>http_method = ''GET'', url = ''tasks/'' @ task_id, query = [], headers = [], body = None\<rparr>"

definition replay_request :: "chat_params \<Rightarrow> string \<Rightarrow> request" where
  "replay_request params task_id =
     \<lparr>http_method = ''GET'', url = ''chat/replay'',
      query = [(''thread_id'', thread_id params), (''query_id'', task_id),
               (''continuous'', ''true''), (''offset'', ''0'')],
      headers = [(''Cache-Control'', ''no-cache'')], body = None\<rparr>"

definition maxQuickChecks :: nat where
  "maxQuickChecks = 8"

definition maxStatusChecks :: nat where
  "maxStatusChecks = 10"

text \<open>The \<^verbatim>\<open>try\<close> block of the quick check: whether it sets \<^verbatim>\<open>taskStarted\<close>. A rejected
  request is caught and ignored.\<close>

fun quickCheck_started :: "string fetch_result \<Rightarrow> bool" where
  "quickCheck_started (Response ok text) =
     (ok \<and> str_includes text ''event:'' \<and> str_includes text ''research_start'')"
| "quickCheck_started Rejected = False"

text \<open>The first waiting loop, from the attempt \<open>quickCheckAttempts\<close> on: the requests it makes
  and either the error it throws or the value of \<^verbatim>\<open>taskStarted\<close> when it ends.\<close>

function quickCheck_loop ::
  "chat_env \<Rightarrow> chat_params \<Rightarrow> string \<Rightarrow> nat \<Rightarrow> request list \<times> (chat_error + bool)" where
  "quickCheck_loop E params task_id quickCheckAttempts =
     (if quickCheckAttempts < maxQuickChecks then
        if aborted_quick E quickCheckAttempts then ([], Inl UserCancelled)
        else if quickCheck_started (quick_check E quickCheckAttempts)
          then ([quickCheck_request params task_id], Inr True)
        else (case quickCheck_loop E params task_id (quickCheckAttempts + 1) of
                (rs, r) \<Rightarrow> (quickCheck_request params task_id # rs, r))
      else ([], Inr False))"
  by pat_completeness auto
termination
  by (relation "measure (\<lambda>(E, params, task_id, k). maxQuickChecks - k)") auto

declare quickCheck_loop.simps [simp del]

text \<open>The \<^verbatim>\<open>try\<close> block of the status check; the payload is the \<^verbatim>\<open>status\<close> of the task
  information (\<open>None\<close>: the body is not JSON or has no status).\<close>

fun statusCheck_started :: "string option fetch_result \<Rightarrow> bool" where
  "statusCheck_started (Response ok status) =
     (ok \<and> (status = Some ''running'' \<or> status = Some ''completed''))"
| "statusCheck_started Rejected = False"

function statusCheck_loop ::
  "chat_env \<Rightarrow> string \<Rightarrow> nat \<Rightarrow> request list \<times> (chat_error + bool)" where
  "statusCheck_loop E task_id statusCheckAttempts =
     (if statusCheckAttempts < maxStatusChecks then
        if aborted_status E statusCheckAttempts then ([], Inl UserCancelled)
        else if statusCheck_started (status_check E statusCheckAttempts)
          then ([status_request task_id], Inr True)
        else (case statusCheck_loop E task_id (statusCheckAttempts + 1) of
                (rs, r) \<Rightarrow> (status_request task_id # rs, r))
      else ([], Inr False))"
  by pat_completeness auto
termination
  by (relation "measure (\<lambda>(E, task_id, k). maxStatusChecks - k)") auto

declare statusCheck_loop.simps [simp del]

text \<open>The object \<^verbatim>\<open>{ type: event.event, data: JSON.parse(event.data) }\<close>.\<close>

definition chat_event :: "string \<Rightarrow> json \<Rightarrow> json" where
  "chat_event t d = JObj [(''type'', JStr t), (''data'', d)]"

text \<open>The \<^verbatim>\<open>for await\<close> loop of \<^verbatim>\<open>chatStream\<close> over the events of the stream: the events it
  yields and the error it throws, if any.\<close>

fun chatStream_events ::
  "(string option \<Rightarrow> json option) \<Rightarrow> StreamEvent list \<Rightarrow> json list \<times> chat_error option" where
  "chatStream_events parse [] = ([], None)"
| "chatStream_events parse (e # es) =
     (if event e = ''replay_end'' then ([], None)
      else if event e = ''error'' then ([], Some (TaskExecutionError (data e)))
      else (case parse (data e) of
              None \<Rightarrow> ([], Some JsonSyntaxError)
            | Some d \<Rightarrow>
                (case chatStream_events parse es of
                   (ys, r) \<Rightarrow> (chat_event (event e) d # ys, r))))"

text \<open>What opening the replay stream gives: \<^verbatim>\<open>fetch\<close> rejects, or \<^verbatim>\<open>fetchStream\<close> reads the
  response.\<close>

definition open_stream :: "chat_env \<Rightarrow> chat_error + StreamEvent list" where
  "open_stream E =
     (case replay_response E of
        None \<Rightarrow> Inl FetchRejected
      | Some (status, values) \<Rightarrow>
          (case fetchStream status values of
             Inl err \<Rightarrow> Inl (StreamFailed err)
           | Inr evs \<Rightarrow> Inr evs))"

text \<open>The \<^verbatim>\<open>try\<close> block of \<^verbatim>\<open>chatStream\<close>; its \<^verbatim>\<open>catch\<close> logs the error and throws it
  again.\<close>

definition chatStream_async :: "chat_env \<Rightarrow> string \<Rightarrow> chat_params \<Rightarrow> chat_run" where
  "chatStream_async E userMessage params =
     (let post = async_request userMessage params in
      case async_response E of
        Rejected \<Rightarrow> \<lparr>requests = [post], yielded = [], thrown = Some FetchRejected\<rparr>
      | Response ok parsed \<Rightarrow>
          if \<not> ok then \<lparr>requests = [post], yielded = [], thrown = Some CreateAsyncTaskFailed\<rparr>
          else (case parsed of
            None \<Rightarrow> \<lparr>requests = [post], yielded = [], thrown = Some JsonSyntaxError\<rparr>
          | Some task_id \<Rightarrow>
              (case quickCheck_loop E params task_id 0 of
                 (rs1, Inl err) \<Rightarrow> \<lparr>requests = post # rs1, yielded = [], thrown = Some err\<rparr>
               | (rs1, Inr taskStarted) \<Rightarrow>
                   (case (if \<not> taskStarted then statusCheck_loop E task_id 0
                          else ([], Inr taskStarted)) of
                      (rs2, Inl err) \<Rightarrow>
                        \<lparr>requests = post # rs1 @ rs2, yielded = [], thrown = Some err\<rparr>
                    | (rs2, Inr started) \<Rightarrow>
                        (let rs = post # rs1 @ rs2 @ [replay_request params task_id] in
                         case open_stream E of
                           Inl err \<Rightarrow> \<lparr>requests = rs, yielded = [], thrown = Some err\<rparr>
                         | Inr evs \<Rightarrow>
                             (case chatStream_events (JSON_parse E) evs of
                                (ys, r) \<Rightarrow> \<lparr>requests = rs, yielded = ys, thrown = r\<rparr>))))))"

text \<open>\<^verbatim>\<open>chatReplayStreamFromAPI\<close>: the replay of a recorded thread from the server. An event
  whose data is not JSON is logged and skipped, and so is a \<^verbatim>\<open>message_chunk\<close> whose data is
  \<^verbatim>\<open>null\<close>: reading \<^verbatim>\<open>chatEvent.data.finish_reason\<close> before the \<^verbatim>\<open>yield\<close> throws, inside the same
  \<^verbatim>\<open>try\<close>. A failure of the stream falls back to the static replay.\<close>

definition api_replay_request :: "string \<Rightarrow> request" where
  "api_replay_request threadId =
     \<lparr>http_method = ''GET'', url = ''chat/replay'',
      query = [(''thread_id'', threadId), (''offset'', ''0'')],
      headers = [(''Cache-Control'', ''no-cache'')], body = None\<rparr>"

fun chatReplay_events :: "(string option \<Rightarrow> json option) \<Rightarrow> StreamEvent list \<Rightarrow> json list" where
  "chatReplay_events parse [] = []"
| "chatReplay_events parse (e # es) =
     (case parse (data e) of
        None \<Rightarrow> chatReplay_events parse es
      | Some d \<Rightarrow>
          if event e = ''replay_end'' then []
          else if event e = ''error'' then []
          else if event e = ''message_chunk'' \<and> d = JNull then chatReplay_events parse es
          else chat_event (event e) d # chatReplay_events parse es)"

definition chatReplayStreamFromAPI :: "chat_env \<Rightarrow> string \<Rightarrow> chat_run" where
  "chatReplayStreamFromAPI E threadId =
     (case open_stream E of
        Inl err \<Rightarrow>
          \<lparr>requests = api_replay_request threadId # requests (static_replay E),
           yielded = yielded (static_replay E), thrown = thrown (static_replay E)\<rparr>
      | Inr evs \<Rightarrow>
          \<lparr>requests = [api_replay_request threadId],
           yielded = chatReplay_events (JSON_parse E) evs, thrown = None\<rparr>)"

text \<open>\<^verbatim>\<open>chatStream\<close>. An empty replay id is falsy in JavaScript.\<close>

definition chatStream :: "chat_env \<Rightarrow> string \<Rightarrow> chat_params \<Rightarrow> chat_run" where
  "chatStream E userMessage params =
     (if static_website_only E \<or> str_includes (location_search E) ''mock''
        then static_replay E
      else if str_includes (location_search E) ''replay='' then
        (case replayId E of
           Some rid \<Rightarrow> if rid \<noteq> [] then chatReplayStreamFromAPI E rid else static_replay E
         | None \<Rightarrow> static_replay E)
      else chatStream_async E userMessage params)"

text \<open>\<^verbatim>\<open>checkThreadRunningTask\<close>: first its \<^verbatim>\<open>try\<close> block, then the function with its
  \<^verbatim>\<open>catch\<close>. The server's answer to the request for a path is \<open>fetch\<close>; the payload of a
  response is its body read as JSON (\<open>None\<close>: \<^verbatim>\<open>response.json()\<close> rejects).\<close>

definition checkThreadRunningTask_try ::
  "(string \<Rightarrow> json option fetch_result) \<Rightarrow> string \<Rightarrow> chat_error + json" where
  "checkThreadRunningTask_try fetch threadId =
     (case fetch (''threads/'' @ threadId @ ''/running-task'') of
        Rejected \<Rightarrow> Inl FetchRejected
      | Response ok parsed \<Rightarrow>
          if \<not> ok then Inl CheckRunningTaskFailed
          else (case parsed of None \<Rightarrow> Inl JsonSyntaxError | Some j \<Rightarrow> Inr j))"

definition checkThreadRunningTask ::
  "(string \<Rightarrow> json option fetch_result) \<Rightarrow> string \<Rightarrow> chat_error + json" where
  "checkThreadRunningTask fetch threadId =
     (case checkThreadRunningTask_try fetch threadId of
        Inl err \<Rightarrow> Inr (JObj [(''has_running_task'', JBool False)])
      | Inr j \<Rightarrow> Inr j)"

text \<open>A terminal event is \<^verbatim>\<open>replay_end\<close> or \<^verbatim>\<open>error\<close>.\<close>

definition is_terminal :: "StreamEvent \<Rightarrow> bool" where
  "is_terminal e = (event e = ''replay_end'' \<or> event e = ''error'')"

text \<open>Two worlds for examples. In the first the page has no query string, the server accepts
  the task, the first quick check sees the start of the research and the replay stream
  delivers one message and the end marker. In the second the page was opened with
  \<^verbatim>\<open>?replay=abc\<close>.\<close>

definition example_params :: chat_params where
  "example_params =
     \<lparr>thread_id = ''thread-1'', resources = None, auto_accepted_plan = True,
      max_plan_iterations = 1, max_step_num = 3, max_search_results = Some 3,
      interrupt_feedback = None, enable_deep_thinking = None,
      enable_background_investigation = True, report_style = Some ''academic'',
      mcp_settings = None\<rparr>"

definition example_body :: "string list" where
  "example_body =
     [''event: message_chunk'' @ [nl] @ ''data: 1'' @ [nl, nl],
      ''event: replay_end'' @ [nl] @ ''data: 0'' @ [nl, nl]]"

definition example_env :: chat_env where
  "example_env =
     \<lparr>static_website_only = False, location_search = [], replayId = None,
      async_response = Response True (Some ''task-1''),
      quick_check = (\<lambda>k. Response True ''event: research_start''),
      status_check = (\<lambda>k. Rejected),
      aborted_quick = (\<lambda>k. False), aborted_status = (\<lambda>k. False),
      replay_response = Some (200, Some example_body),
      JSON_parse = (\<lambda>s. if s = Some ''1'' then Some (JNum 1) else None),
      static_replay = \<lparr>requests = [], yielded = [], thrown = None\<rparr>\<rparr>"

definition replay_env :: chat_env where
  "replay_env =
     example_env\<lparr>location_search := ''?replay=abc'', replayId := Some ''abc''\<rparr>"

section \<open>The chat history of the store\<close>

text \<open>The function \<^verbatim>\<open>saveChatHistory\<close> of the module core/store, whose code is quoted in the
  architecture document. It is the only place that writes the history key.\<close>

text \<open>A message, as far as \<^verbatim>\<open>saveChatHistory\<close> reads it: its role and its content (the type
  \<^verbatim>\<open>Message\<close> is declared in core/messages, which is not among the sources; the code guards
  the content with \<^verbatim>\<open>?.\<close>, so it may be missing).\<close>

record Message =
  role :: string
  content :: "string option"

record ChatHistory =
  threadId :: string
  title :: string
  lastMessage :: string
  timestamp :: string
  messages :: "Message list"

text \<open>What the browser holds under the key \<^verbatim>\<open>deer-flow-chat-history\<close>: nothing, a text that
  \<^verbatim>\<open>JSON.parse\<close> rejects (or a store that cannot be read), or the list written last. Nothing
  but \<^verbatim>\<open>saveChatHistory\<close> writes the key, so a text that parses is such a list.\<close>

datatype stored_value = Absent | Unparseable | Stored "ChatHistory list"

text \<open>\<^verbatim>\<open>getChatHistories\<close>; every failure is caught and gives the empty list.\<close>

fun getChatHistories :: "bool \<Rightarrow> stored_value \<Rightarrow> ChatHistory list" where
  "getChatHistories isClient st =
     (if \<not> isClient then []
      else case st of Absent \<Rightarrow> [] | Unparseable \<Rightarrow> [] | Stored hs \<Rightarrow> hs)"

text \<open>\<^verbatim>\<open>xs.findIndex(P)\<close>; \<open>None\<close> is the \<open>-1\<close> of JavaScript.\<close>

fun findIndex :: "('a \<Rightarrow> bool) \<Rightarrow> 'a list \<Rightarrow> nat option" where
  "findIndex P [] = None"
| "findIndex P (x # xs) = (if P x then Some 0 else map_option Suc (findIndex P xs))"

text \<open>\<^verbatim>\<open>v || d\<close> for a text that may be missing: the empty text is falsy.\<close>

fun or_else :: "string option \<Rightarrow> string \<Rightarrow> string" where
  "or_else None d = d"
| "or_else (Some s) d = (if s = [] then d else s)"

text \<open>The title of a conversation without user message. The source has a Chinese literal
  here (\<open>unnamed conversation\<close>).\<close>

definition default_title :: string where
  "default_title = ''unnamed conversation''"

text \<open>The entry \<^verbatim>\<open>chatHistory\<close> that \<^verbatim>\<open>saveChatHistory\<close> builds; \<open>now\<close> is the time stamp
  \<^verbatim>\<open>new Date().toISOString()\<close>. The message list is not empty when this is evaluated.\<close>

definition chatHistory_entry :: "string \<Rightarrow> string \<Rightarrow> Message list \<Rightarrow> ChatHistory" where
  "chatHistory_entry now tid msgs =
     (let userMessage = find (\<lambda>m. role m = ''user'') msgs
      in \<lparr>threadId = tid,
          title = or_else (map_option (take 50) (Option.bind userMessage content)) default_title,
          lastMessage = or_else (map_option (take 100) (content (last msgs))) [],
          timestamp = now,
          messages = msgs\<rparr>)"

text \<open>\<^verbatim>\<open>saveChatHistory\<close>, from the stored value before the call to the stored value after it.
  \<open>isClient\<close> is the constant of the module; \<open>setItem_ok\<close> says whether
  \<^verbatim>\<open>localStorage.setItem\<close> succeeds (if it throws, for a full store, the \<^verbatim>\<open>catch\<close> logs the
  error and nothing is written).\<close>

definition saveChatHistory ::
  "bool \<Rightarrow> bool \<Rightarrow> string \<Rightarrow> string \<Rightarrow> Message list \<Rightarrow> stored_value \<Rightarrow> stored_value" where
  "saveChatHistory isClient setItem_ok now tid msgs st =
     (if length msgs = 0 \<or> \<not> isClient then st
      else
        let histories = getChatHistories isClient st;
            existingIndex = findIndex (\<lambda>h. threadId h = tid) histories;
            chatHistory = chatHistory_entry now tid msgs;
            histories' = (case existingIndex of
                            Some i \<Rightarrow> histories[i := chatHistory]
                          | None \<Rightarrow> chatHistory # histories);
            limitedHistories = take 50 histories'
        in if setItem_ok then Stored limitedHistories else st)"

text \<open>The persisted list, and what is claimed of it.\<close>

definition persisted :: "stored_value \<Rightarrow> ChatHistory list" where
  "persisted st = getChatHistories True st"

definition history_ok :: "stored_value \<Rightarrow> bool" where
  "history_ok st = (length (persisted st) \<le> 50 \<and> distinct (map threadId (persisted st)))"

text \<open>A sequence of calls, each with its thread, its messages, its time stamp and the
  success of its write.\<close>

record save_call =
  call_thread :: string
  call_messages :: "Message list"
  call_now :: string
  call_setItem_ok :: bool

fun save_all :: "bool \<Rightarrow> save_call list \<Rightarrow> stored_value \<Rightarrow> stored_value" where
  "save_all isClient [] st = st"
| "save_all isClient (c # cs) st =
     save_all isClient cs
       (saveChatHistory isClient (call_setItem_ok c) (call_now c) (call_thread c) (call_messages c) st)"

text \<open>A store with two conversations, for examples.\<close>

definition example_message :: Message where
  "example_message = \<lparr>role = ''user'', content = Some ''hello''\<rparr>"

definition example_store :: stored_value where
  "example_store =
     Stored [chatHistory_entry ''2025-01-15T10:30:00'' ''thread-a'' [example_message],
             chatHistory_entry ''2025-01-15T10:31:00'' ''thread-b'' [example_message]]"

section \<open>The event log and its offsets\<close>

text \<open>
  The event log, the replayer and \<^verbatim>\<open>get_next_stream_id\<close> run on the server; the sources only
  name them (the architecture document) and call them (the client passes the offset
  \<^verbatim>\<open>"0"\<close>). The definitions of this section follow the specification.
\<close>



















section \<open>The task state machine\<close>

text \<open>Modelled from the spec: the status of a task and the operations that change it (the
  task manager and the stream runner of the server are missing). The graph of the
  specification has the edges pending to running (admit), running to completed (complete),
  running to failed (error), and pending or running to cancelled (cancel); a task is created
  pending.\<close>

datatype task_status = pending | running | completed | failed | cancelled

datatype task_op = Admit | Complete | Error | Cancel

fun terminal :: "task_status \<Rightarrow> bool" where
  "terminal completed = True"
| "terminal failed = True"
| "terminal cancelled = True"
| "terminal s = False"

fun edge :: "task_status \<Rightarrow> task_status \<Rightarrow> bool" where
  "edge pending running = True"
| "edge pending cancelled = True"
| "edge running completed = True"
| "edge running failed = True"
| "edge running cancelled = True"
| "edge s s' = False"

text \<open>Modelled from the spec: what an operation does to the status. The runner marks an
  admitted task running, a running task completed when the workflow ends and failed when
  it raises; cancelling cancels a task that is not yet final and is a no-op on a final one;
  an operation that does not apply leaves the status as it is.\<close>

fun apply_op :: "task_status \<Rightarrow> task_op \<Rightarrow> task_status" where
  "apply_op pending Admit = running"
| "apply_op running Complete = completed"
| "apply_op running Error = failed"
| "apply_op pending Cancel = cancelled"
| "apply_op running Cancel = cancelled"
| "apply_op s opn = s"

text \<open>The status values observed while a sequence of operations is applied, and what it
  means that they form a path of the graph: each value is the one before it or follows it
  along an edge.\<close>

fun observed :: "task_status \<Rightarrow> task_op list \<Rightarrow> task_status list" where
  "observed s [] = [s]"
| "observed s (opn # ops) = s # observed (apply_op s opn) ops"

fun is_path :: "task_status list \<Rightarrow> bool" where
  "is_path (a # b # rest) = ((a = b \<or> edge a b) \<and> is_path (b # rest))"
| "is_path xs = True"

section \<open>Payloads and texts for examples\<close>

text \<open>Modelled from the spec: the payload of the \<^verbatim>\<open>replay_end\<close> event that the replayer
  sends at the end of a static replay of \<open>n\<close> events, \<^verbatim>\<open>{mode: "static", total_events: n}\<close>; the
  replayer of the server is missing. (The example stream of the architecture document ends
  with the same payload and the thread id.)\<close>

definition static_replay_end_payload :: "nat \<Rightarrow> json" where
  "static_replay_end_payload n =
     JObj [(''mode'', JStr ''static''), (''total_events'', JNum (int n))]"

text \<open>The payload of the \<^verbatim>\<open>research_start\<close> frame with which the example stream of the
  architecture document begins (its content text is shortened here).\<close>

definition documented_research_start_payload :: json where
  "documented_research_start_payload =
     JObj [(''agent'', JStr ''researcher''), (''content'', JStr ''...''),
           (''research_id'', JStr ''query-uuid'')]"

text \<open>A stand-in for \<^verbatim>\<open>JSON.parse\<close> that agrees with it on the two texts of the examples: the
  text \<^verbatim>\<open>1\<close> is the number one, and the text \<^verbatim>\<open>oops\<close> is not JSON.\<close>

definition example_parse :: "string option \<Rightarrow> json option" where
  "example_parse s = (if s = Some ''1'' then Some (JNum 1) else None)"

section \<open>Properties of the SSE reader\<close>

lemma indexOf_Some_bound:
  "indexOf s pat = Some i \<Longrightarrow> i + length pat \<le> length s"
proof (induction s arbitrary: i)
  case Nil
  then show ?case by (simp split: if_splits)
next
  case (Cons c cs)
  show ?case
  proof (cases "prefix pat (c # cs)")
    case True
    with Cons.prems prefix_length_le [of pat "c # cs"] show ?thesis by simp
  next
    case False
    with Cons.prems obtain j where "indexOf cs pat = Some j" "i = Suc j" by auto
    with Cons.IH show ?thesis by fastforce
  qed
qed

lemma split_nl_ne: "split_nl s \<noteq> []"
  by (induction s) (auto split: list.splits)

lemma split_nl_no_nl:
  "nl \<notin> set a \<Longrightarrow> split_nl (a @ s) = (a @ hd (split_nl s)) # tl (split_nl s)"
  using split_nl_ne by (induction a) (auto split: list.splits)

lemma split_nl_single: "nl \<notin> set a \<Longrightarrow> split_nl a = [a]"
  using split_nl_no_nl [of a "[]"] by simp

lemma indexOf_append_left:
  "indexOf a pat = Some i \<Longrightarrow> indexOf (a @ b) pat = Some i"
proof (induction a arbitrary: i)
  case Nil
  then show ?case by (cases b) (auto split: if_splits)
next
  case (Cons c cs)
  show ?case
  proof (cases "prefix pat (c # cs)")
    case True
    then have "prefix pat ((c # cs) @ b)" by (rule prefix_prefix)
    with True Cons.prems show ?thesis by simp
  next
    case False
    with Cons.prems obtain j where j: "indexOf cs pat = Some j" "i = Suc j" by auto
    then have "length pat \<le> length cs" using indexOf_Some_bound [of cs pat j] by simp
    then have "\<not> prefix pat ((c # cs) @ b)"
      using False by (metis append_Cons le_Suc_eq length_Cons prefix_length_prefix prefix_order.dual_order.refl prefix_append)
    with j Cons.IH show ?thesis by simp
  qed
qed

lemma indexOf_Some_prefix: "indexOf s pat = Some i \<Longrightarrow> prefix pat (drop i s)"
proof (induction s arbitrary: i)
  case Nil
  then show ?case by (simp split: if_splits)
next
  case (Cons c cs)
  show ?case
  proof (cases "prefix pat (c # cs)")
    case True
    with Cons.prems show ?thesis by simp
  next
    case False
    with Cons.prems obtain j where "indexOf cs pat = Some j" "i = Suc j" by auto
    with Cons.IH show ?thesis by simp
  qed
qed

lemma drain_None: "indexOf buffer [nl, nl] = None \<Longrightarrow> drain buffer = ([], buffer)"
  by (subst drain.simps) simp

lemma drain_Some:
  "indexOf buffer [nl, nl] = Some i \<Longrightarrow>
   drain buffer =
     ((case parseEvent (take i buffer) of Some e \<Rightarrow> [e] | None \<Rightarrow> []) @ fst (drain (drop (i + 2) buffer)),
      snd (drain (drop (i + 2) buffer)))"
  by (subst drain.simps) (simp split: prod.splits option.splits)

lemma drain_append:
  "drain (a @ b) = (fst (drain a) @ fst (drain (snd (drain a) @ b)), snd (drain (snd (drain a) @ b)))"
proof (induction a rule: drain.induct)
  case (1 buffer)
  show ?case
  proof (cases "indexOf buffer [nl, nl]")
    case None
    then show ?thesis by (simp add: drain_None)
  next
    case (Some i)
    then have b: "i + 2 \<le> length buffer" using indexOf_Some_bound [of buffer "[nl, nl]" i] by simp
    have ab: "indexOf (buffer @ b) [nl, nl] = Some i" using Some by (rule indexOf_append_left)
    have ih: "drain (drop (i + 2) buffer @ b) =
      (fst (drain (drop (i + 2) buffer)) @ fst (drain (snd (drain (drop (i + 2) buffer)) @ b)),
       snd (drain (snd (drain (drop (i + 2) buffer)) @ b)))"
      using "1.IH" [OF Some] .
    show ?thesis
      using b ih by (simp add: drain_Some [OF Some] drain_Some [OF ab])
  qed
qed

lemma drain_rest: "indexOf (snd (drain buffer)) [nl, nl] = None"
proof (induction buffer rule: drain.induct)
  case (1 buffer)
  show ?case
  proof (cases "indexOf buffer [nl, nl]")
    case None
    then show ?thesis by (simp add: drain_None)
  next
    case (Some i)
    with "1.IH" [OF Some] show ?thesis by (simp add: drain_Some)
  qed
qed

lemma fetchStream_loop_drain:
  "indexOf buffer [nl, nl] = None \<Longrightarrow> fetchStream_loop buffer vs = fst (drain (buffer @ concat vs))"
proof (induction vs arbitrary: buffer)
  case Nil
  then show ?case by (simp add: drain_None)
next
  case (Cons v vs)
  have "drain ((buffer @ v) @ concat vs) =
    (fst (drain (buffer @ v)) @ fst (drain (snd (drain (buffer @ v)) @ concat vs)),
     snd (drain (snd (drain (buffer @ v)) @ concat vs)))"
    by (rule drain_append)
  with Cons.IH [of "snd (drain (buffer @ v))"] drain_rest [of "buffer @ v"] show ?case
    by (simp add: case_prod_beta)
qed

lemma indexOf_skip:
  "nl \<notin> set a \<Longrightarrow> indexOf (a @ s) [nl, nl] = map_option (\<lambda>i. length a + i) (indexOf s [nl, nl])"
proof (induction a)
  case Nil
  show ?case by (cases "indexOf s [nl, nl]") simp_all
next
  case (Cons c a)
  then show ?case by (cases "indexOf s [nl, nl]") simp_all
qed

lemma indexOf_sse_chunk:
  assumes "single_line kind" "single_line json"
  shows "indexOf (sse_chunk kind json @ nl # nl # rest) [nl, nl] = Some (length (sse_chunk kind json))"
proof -
  have 1: "indexOf (''data: '' @ json @ nl # nl # rest) [nl, nl] = Some (length (''data: '' @ json))"
    using indexOf_skip [of "''data: '' @ json" "nl # nl # rest"] assms by (simp add: single_line_def)
  have 2: "indexOf (nl # ''data: '' @ json @ nl # nl # rest) [nl, nl] = Some (Suc (length (''data: '' @ json)))"
    using 1 by simp
  show ?thesis
    using indexOf_skip [of "''event: '' @ kind" "nl # ''data: '' @ json @ nl # nl # rest"] assms 2
    by (simp add: sse_chunk_def single_line_def)
qed

lemma parseEvent_sse_chunk:
  assumes "single_line kind" "single_line json"
  shows "parseEvent (sse_chunk kind json) = Some \<lparr>event = kind, data = Some json\<rparr>"
proof -
  have "split_nl (sse_chunk kind json) = [''event: '' @ kind, ''data: '' @ json]"
    using split_nl_no_nl [of "''event: '' @ kind" "nl # ''data: '' @ json"] split_nl_single [of "''data: '' @ json"] assms
    by (simp add: sse_chunk_def single_line_def)
  then show ?thesis
    by (simp add: parseEvent_def parseEvent_line_def)
qed

lemma drain_frames:
  "\<forall>f \<in> set fs. single_line (fst f) \<and> single_line (snd f) \<Longrightarrow>
   drain (concat (map sse_frame fs)) = (map frame_event fs, [])"
proof (induction fs)
  case Nil
  show ?case by (simp add: drain_None)
next
  case (Cons f fs)
  then have sl: "single_line (fst f)" "single_line (snd f)" by simp_all
  let ?rest = "concat (map sse_frame fs)"
  have ix: "indexOf (sse_chunk (fst f) (snd f) @ nl # nl # ?rest) [nl, nl] = Some (length (sse_chunk (fst f) (snd f)))"
    using sl by (rule indexOf_sse_chunk)
  have "drain (sse_chunk (fst f) (snd f) @ nl # nl # ?rest) = (frame_event f # map frame_event fs, [])"
    using Cons by (simp add: drain_Some [OF ix] parseEvent_sse_chunk [OF sl] frame_event_def)
  then show ?case by (simp add: sse_frame_def [of f])
qed

text \<open>
  Claim C4. Let the text delivered by the response body, cut into values in any way, be a
  sequence of frames \<^verbatim>\<open>event: <kind>\ndata: <json>\n\n\<close> in which every kind and every JSON
  text is a single line. Then \<^verbatim>\<open>fetchStream\<close> yields exactly one event per frame, in the order
  of the frames, and \<^verbatim>\<open>parseEvent\<close> of the chunk of each frame returns the event whose
  \<open>event\<close> field is the kind and whose \<open>data\<close> field is the JSON text.
\<close>

theorem fetchStream_frames:
  assumes "\<forall>f \<in> set fs. single_line (fst f) \<and> single_line (snd f)"
    and "concat vs = concat (map sse_frame fs)"
  shows "fetchStream 200 (Some vs) = Inr (map frame_event fs) \<and>
         (\<forall>f \<in> set fs. parseEvent (sse_chunk (fst f) (snd f)) = Some \<lparr>event = fst f, data = Some (snd f)\<rparr>)"
proof -
  have "fetchStream_loop [] vs = fst (drain ([] @ concat vs))"
    by (rule fetchStream_loop_drain) simp
  with assms have "fetchStream_loop [] vs = map frame_event fs"
    by (simp add: drain_frames)
  moreover have "\<forall>f \<in> set fs. parseEvent (sse_chunk (fst f) (snd f)) = Some \<lparr>event = fst f, data = Some (snd f)\<rparr>"
    using assms(1) by (simp add: parseEvent_sse_chunk)
  ultimately show ?thesis by (simp add: fetchStream_def)
qed

theorem fetchStream_frames_witness:
  "fetchStream 200 (Some [''event: message_chunk'' @ [nl] @ ''data: [1, 2]'' @ [nl], nl # ''event: replay_end'' @ [nl], ''data: {}'' @ [nl, nl]])
     = Inr [\<lparr>event = ''message_chunk'', data = Some ''[1, 2]''\<rparr>, \<lparr>event = ''replay_end'', data = Some ''{}''\<rparr>]
   \<and> parseEvent (''event: message_chunk'' @ [nl] @ ''data: [1, 2]'') = Some \<lparr>event = ''message_chunk'', data = Some ''[1, 2]''\<rparr>"
  using fetchStream_frames [of "[(''message_chunk'', ''[1, 2]''), (''replay_end'', ''{}'')]"
      "[''event: message_chunk'' @ [nl] @ ''data: [1, 2]'' @ [nl], nl # ''event: replay_end'' @ [nl], ''data: {}'' @ [nl, nl]]"]
  by (simp add: single_line_def sse_frame_def sse_chunk_def frame_event_def)


lemma parseEvent_line_event:
  "prefix ''event: '' line \<Longrightarrow> parseEvent_line st line = (drop 7 line, snd st)"
  by (auto simp: parseEvent_line_def prefix_def)

lemma parseEvent_line_data:
  "prefix ''data: '' line \<Longrightarrow> parseEvent_line st line = (fst st, Some (drop 6 line))"
  by (auto simp: parseEvent_line_def prefix_def)

lemma key_prefix:
  assumes "indexOf line '': '' = Some pos"
  shows "prefix (take pos line @ '': '') line"
proof -
  have "prefix '': '' (drop pos line)" using assms by (rule indexOf_Some_prefix)
  then obtain r where "drop pos line = '': '' @ r" by (auto simp: prefix_def)
  then have "line = take pos line @ '': '' @ r" by (metis append_take_drop_id)
  then show ?thesis by (metis append.assoc prefixI)
qed

lemma parseEvent_line_other:
  assumes "\<not> prefix ''event: '' line" "\<not> prefix ''data: '' line"
  shows "parseEvent_line st line = st"
proof (cases "indexOf line '': ''")
  case None
  then show ?thesis by (simp add: parseEvent_line_def)
next
  case (Some pos)
  from key_prefix [OF Some] assms have "take pos line \<noteq> ''event''" "take pos line \<noteq> ''data''"
    by auto
  with Some show ?thesis by (simp add: parseEvent_line_def)
qed

lemma parseEvent_loop_event:
  "fst (parseEvent_loop ls st) =
     (if filter (prefix ''event: '') ls = [] then fst st
      else drop 7 (last (filter (prefix ''event: '') ls)))"
proof (induction ls arbitrary: st)
  case Nil
  show ?case by simp
next
  case (Cons l ls)
  consider "prefix ''event: '' l" | "\<not> prefix ''event: '' l" "prefix ''data: '' l"
    | "\<not> prefix ''event: '' l" "\<not> prefix ''data: '' l" by blast
  then show ?case
  proof cases
    case 1
    then show ?thesis using Cons.IH by (simp add: parseEvent_line_event)
  next
    case 2
    then show ?thesis using Cons.IH by (simp add: parseEvent_line_data)
  next
    case 3
    then show ?thesis using Cons.IH by (simp add: parseEvent_line_other)
  qed
qed

lemma parseEvent_loop_data:
  "snd (parseEvent_loop ls st) =
     (if filter (prefix ''data: '') ls = [] then snd st
      else Some (drop 6 (last (filter (prefix ''data: '') ls))))"
proof (induction ls arbitrary: st)
  case Nil
  show ?case by simp
next
  case (Cons l ls)
  consider "prefix ''event: '' l" | "\<not> prefix ''event: '' l" "prefix ''data: '' l"
    | "\<not> prefix ''event: '' l" "\<not> prefix ''data: '' l" by blast
  then show ?case
  proof cases
    case 1
    then have "\<not> prefix ''data: '' l" by (auto simp: prefix_def)
    with 1 show ?thesis using Cons.IH by (simp add: parseEvent_line_event)
  next
    case 2
    then show ?thesis using Cons.IH by (simp add: parseEvent_line_data)
  next
    case 3
    then show ?thesis using Cons.IH by (simp add: parseEvent_line_other)
  qed
qed

lemma parseEvent_loop_ignore:
  "parseEvent_loop (filter (\<lambda>l. indexOf l '': '' \<noteq> None) ls) st = parseEvent_loop ls st"
  by (induction ls arbitrary: st) (auto simp: parseEvent_line_def)

lemma drop7_message:
  "prefix ''event: '' l \<Longrightarrow> drop 7 l = ''message'' \<longleftrightarrow> l = ''event: message''"
  by (auto simp: prefix_def)

text \<open>
  Claim C9 (amended). \<^verbatim>\<open>parseEvent\<close> returns \<^verbatim>\<open>undefined\<close> exactly when the event name it ends
  with is \<^verbatim>\<open>"message"\<close>, that is, the chunk has no \<^verbatim>\<open>"event: "\<close> line or its last such line is
  \<^verbatim>\<open>event: message\<close>, and the chunk has no \<^verbatim>\<open>"data: "\<close> line. Lines without the separator
  \<^verbatim>\<open>": "\<close> are ignored: dropping them does not change what the loop computes. A chunk that is
  one \<^verbatim>\<open>"data: "\<close> line is returned with the event kind \<^verbatim>\<open>"message"\<close>.
\<close>

theorem parseEvent_undefined_iff:
  "(parseEvent chunk = None \<longleftrightarrow>
      (filter (prefix ''event: '') (split_nl chunk) = [] \<or>
       last (filter (prefix ''event: '') (split_nl chunk)) = ''event: message'') \<and>
      filter (prefix ''data: '') (split_nl chunk) = []) \<and>
   parseEvent_loop (filter (\<lambda>l. indexOf l '': '' \<noteq> None) ls) st = parseEvent_loop ls st \<and>
   (single_line v \<longrightarrow> parseEvent (''data: '' @ v) = Some \<lparr>event = ''message'', data = Some v\<rparr>)"
proof -
  let ?ls = "split_nl chunk"
  let ?es = "filter (prefix ''event: '') ?ls"
  have "prefix ''event: '' (last ?es)" if "?es \<noteq> []"
    using that last_in_set [of ?es] by auto
  then have ev: "?es \<noteq> [] \<Longrightarrow> drop 7 (last ?es) = ''message'' \<longleftrightarrow> last ?es = ''event: message''"
    by (rule drop7_message)
  have "parseEvent chunk = None \<longleftrightarrow>
      fst (parseEvent_loop ?ls (''message'', None)) = ''message'' \<and>
      snd (parseEvent_loop ?ls (''message'', None)) = None"
    by (simp add: parseEvent_def split: prod.splits)
  then have a: "parseEvent chunk = None \<longleftrightarrow>
      (?es = [] \<or> last ?es = ''event: message'') \<and> filter (prefix ''data: '') ?ls = []"
    using ev by (simp only: parseEvent_loop_event parseEvent_loop_data) auto
  have c: "single_line v \<longrightarrow> parseEvent (''data: '' @ v) = Some \<lparr>event = ''message'', data = Some v\<rparr>"
    using split_nl_single [of "''data: '' @ v"]
    by (simp add: single_line_def parseEvent_def parseEvent_line_def)
  show ?thesis using a c parseEvent_loop_ignore by blast
qed

theorem parseEvent_undefined_iff_witness:
  "parseEvent (''data: {}'') = Some \<lparr>event = ''message'', data = Some ''{}''\<rparr>"
  using parseEvent_undefined_iff [of "[]" "[]" "([], None)" "''{}''"]
  by (simp add: single_line_def)

text \<open>
  The claim as first stated, with \<^verbatim>\<open>undefined\<close> returned exactly when the chunk has neither an
  \<^verbatim>\<open>"event: "\<close> line nor a \<^verbatim>\<open>"data: "\<close> line, fails on the chunk \<^verbatim>\<open>event: message\<close>: it has an
  \<^verbatim>\<open>"event: "\<close> line and \<^verbatim>\<open>parseEvent\<close> still returns \<^verbatim>\<open>undefined\<close>.
\<close>

theorem parseEvent_event_message_counterexample:
  "\<not> (parseEvent ''event: message'' = None \<longleftrightarrow>
        filter (prefix ''event: '') (split_nl ''event: message'') = [] \<and>
        filter (prefix ''data: '') (split_nl ''event: message'') = [])"
  by (simp add: parseEvent_def parseEvent_line_def)



section \<open>Properties of the event types\<close>

lemma is_GenericEvent_type:
  "is_GenericEvent T D e \<Longrightarrow> event_type e = Some T"
  by (cases e) (auto simp: is_GenericEvent_def has_prop_def split: option.splits json.splits)

lemma is_GenericEvent_data:
  assumes "is_GenericEvent T D e"
  shows "\<exists>ps. event_data e = Some ps \<and> D ps \<and> (\<forall>k \<in> set common_fields. map_of ps k \<noteq> None)"
proof (cases e)
  case (JObj obj)
  with assms obtain d where d: "map_of obj ''data'' = Some d"
    by (auto simp: is_GenericEvent_def has_prop_def split: option.splits)
  with assms JObj obtain ps where ps: "d = JObj ps"
    by (cases d) (auto simp: is_GenericEvent_def has_prop_def)
  with assms JObj d have "D ps \<and> (\<forall>k \<in> set common_fields. map_of ps k \<noteq> None)"
    by (auto simp: is_GenericEvent_def has_prop_def common_fields_def split: option.splits)
  with JObj d ps show ?thesis by simp
qed (use assms in \<open>simp_all add: is_GenericEvent_def\<close>)

lemma is_ChatEvent_type:
  assumes "is_ChatEvent e"
  shows "event_type e \<in> Some ` {''message_chunk'', ''tool_calls'', ''tool_call_chunks'',
     ''tool_call_result'', ''interrupt'', ''replay_end'', ''error'', ''research_end''}"
  using assms
  unfolding is_ChatEvent_def is_MessageChunkEvent_def is_ToolCallsEvent_def
    is_ToolCallChunksEvent_def is_ToolCallResultEvent_def is_InterruptEvent_def
    is_ReplayEndEvent_def is_ErrorEvent_def is_ResearchEndEvent_def
  by (auto dest!: is_GenericEvent_type)

lemma sample_type: "event_type (sample_event T extra) = Some T"
  by (simp add: sample_event_def)

lemma samples:
  "is_ChatEvent (sample_event ''message_chunk'' [])"
  "is_ChatEvent (sample_event ''tool_calls'' [(''tool_calls'', JArr []), (''tool_call_chunks'', JArr [])])"
  "is_ChatEvent (sample_event ''tool_call_chunks'' [(''tool_call_chunks'', JArr [])])"
  "is_ChatEvent (sample_event ''tool_call_result'' [(''tool_call_id'', JStr ''c1'')])"
  "is_ChatEvent (sample_event ''interrupt'' [(''options'', JArr [])])"
  "is_ChatEvent (sample_event ''replay_end'' [])"
  "is_ChatEvent (sample_event ''error'' [(''message'', JStr ''failed'')])"
  "is_ChatEvent (sample_event ''research_end'' [(''research_id'', JStr ''r1''), (''status'', JStr ''completed'')])"
  by (simp_all add: is_ChatEvent_def is_MessageChunkEvent_def is_ToolCallsEvent_def
    is_ToolCallChunksEvent_def is_ToolCallResultEvent_def is_InterruptEvent_def
    is_ReplayEndEvent_def is_ErrorEvent_def is_ResearchEndEvent_def is_GenericEvent_def
    has_prop_def opt_prop_def sample_event_def)

text \<open>
  Claim C2 (amended). The wire vocabulary has the nine kinds \<^verbatim>\<open>message_chunk\<close>, \<^verbatim>\<open>tool_calls\<close>,
  \<^verbatim>\<open>tool_call_chunks\<close>, \<^verbatim>\<open>tool_call_result\<close>, \<^verbatim>\<open>interrupt\<close>, \<^verbatim>\<open>research_start\<close>,
  \<^verbatim>\<open>research_end\<close>, \<^verbatim>\<open>error\<close> and \<^verbatim>\<open>replay_end\<close>. Every value of the union \<^verbatim>\<open>ChatEvent\<close> has
  one of the eight kinds other than \<^verbatim>\<open>research_start\<close>, each of these eight kinds is the kind of
  some \<^verbatim>\<open>ChatEvent\<close>, and no \<^verbatim>\<open>ChatEvent\<close> has the kind \<^verbatim>\<open>research_start\<close>.
\<close>

theorem ChatEvent_kinds:
  "length canonical_kinds = 9 \<and> distinct canonical_kinds \<and>
   (is_ChatEvent e \<longrightarrow> (\<exists>k \<in> set canonical_kinds. k \<noteq> ''research_start'' \<and> event_type e = Some k)) \<and>
   (\<forall>k \<in> set canonical_kinds. k \<noteq> ''research_start'' \<longrightarrow> (\<exists>e'. is_ChatEvent e' \<and> event_type e' = Some k)) \<and>
   (\<forall>e'. is_ChatEvent e' \<longrightarrow> event_type e' \<noteq> Some ''research_start'')"
proof -
  have a: "length canonical_kinds = 9 \<and> distinct canonical_kinds"
    by (simp add: canonical_kinds_def)
  have b: "is_ChatEvent e \<longrightarrow> (\<exists>k \<in> set canonical_kinds. k \<noteq> ''research_start'' \<and> event_type e = Some k)"
    using is_ChatEvent_type [of e] by (auto simp: canonical_kinds_def)
  have c: "\<forall>k \<in> set canonical_kinds. k \<noteq> ''research_start'' \<longrightarrow> (\<exists>e'. is_ChatEvent e' \<and> event_type e' = Some k)"
    unfolding canonical_kinds_def using samples sample_type by (auto simp del: event_type.simps)
  have d: "\<forall>e'. is_ChatEvent e' \<longrightarrow> event_type e' \<noteq> Some ''research_start''"
    using is_ChatEvent_type by fastforce
  show ?thesis using a b c d by blast
qed

theorem ChatEvent_kinds_witness:
  "is_ChatEvent (JObj [(''type'', JStr ''error''), (''data'', JObj [(''id'', JStr ''m1''),
     (''thread_id'', JStr ''t1''), (''agent'', JStr ''coder''), (''role'', JStr ''assistant''),
     (''message'', JStr ''failed'')])]) \<and>
   (\<exists>k \<in> set canonical_kinds. k \<noteq> ''research_start'' \<and>
      event_type (JObj [(''type'', JStr ''error''), (''data'', JObj [(''id'', JStr ''m1''),
     (''thread_id'', JStr ''t1''), (''agent'', JStr ''coder''), (''role'', JStr ''assistant''),
     (''message'', JStr ''failed'')])]) = Some k)"
  using ChatEvent_kinds [of "JObj [(''type'', JStr ''error''), (''data'', JObj [(''id'', JStr ''m1''),
     (''thread_id'', JStr ''t1''), (''agent'', JStr ''coder''), (''role'', JStr ''assistant''),
     (''message'', JStr ''failed'')])]"]
  by (simp add: is_ChatEvent_def is_ErrorEvent_def is_GenericEvent_def has_prop_def opt_prop_def canonical_kinds_def)

text \<open>
  The claim as first stated also asks that each of the nine kinds be representable as a
  \<^verbatim>\<open>ChatEvent\<close>. The union has no member for \<^verbatim>\<open>research_start\<close>, so this fails.
\<close>

theorem research_start_counterexample:
  "\<not> (\<forall>k \<in> set canonical_kinds. \<exists>e. is_ChatEvent e \<and> event_type e = Some k)"
proof
  assume "\<forall>k \<in> set canonical_kinds. \<exists>e. is_ChatEvent e \<and> event_type e = Some k"
  then obtain e where "is_ChatEvent e" "event_type e = Some ''research_start''"
    by (auto simp: canonical_kinds_def)
  then show False using is_ChatEvent_type [of e] by auto
qed

lemma is_ChatEvent_data:
  "is_ChatEvent e \<Longrightarrow>
   \<exists>ps. event_data e = Some ps \<and> (\<forall>k \<in> set common_fields. map_of ps k \<noteq> None)"
  unfolding is_ChatEvent_def is_MessageChunkEvent_def is_ToolCallsEvent_def
    is_ToolCallChunksEvent_def is_ToolCallResultEvent_def is_InterruptEvent_def
    is_ReplayEndEvent_def is_ErrorEvent_def is_ResearchEndEvent_def
  by (blast dest: is_GenericEvent_data)

lemma is_ChatEvent_carries:
  assumes "is_ChatEvent (JObj [(''type'', JStr k), (''data'', d)])"
  shows "\<forall>f \<in> set common_fields. carries d f"
proof -
  from is_ChatEvent_data [OF assms] obtain ps where
    ps: "event_data (JObj [(''type'', JStr k), (''data'', d)]) = Some ps"
      "\<forall>f \<in> set common_fields. map_of ps f \<noteq> None" by blast
  from ps(1) have "d = JObj ps" by (cases d) simp_all
  with ps(2) show ?thesis by simp
qed

text \<open>
  Claim C5 (amended). The \<^verbatim>\<open>data\<close> object of every value that inhabits the union \<^verbatim>\<open>ChatEvent\<close>
  carries \<^verbatim>\<open>id\<close>, \<^verbatim>\<open>thread_id\<close>, \<^verbatim>\<open>agent\<close> and \<^verbatim>\<open>role\<close>; an object with a \<^verbatim>\<open>type\<close> and a
  \<^verbatim>\<open>data\<close> inhabits the union only if the type is not \<^verbatim>\<open>research_start\<close> and the data carries
  the four fields. The payloads of the wire are not checked against this: for an event that
  is not terminal, the replay loop of \<^verbatim>\<open>chatStream\<close> yields the object with whatever data
  \<^verbatim>\<open>JSON.parse\<close> returns, and when that data lacks one of the four fields the object yielded
  is not a value of the union.
\<close>

theorem ChatEvent_common_fields:
  "(is_ChatEvent e \<longrightarrow>
      (\<exists>ps. event_data e = Some ps \<and> (\<forall>f \<in> set common_fields. carries (JObj ps) f))) \<and>
   (is_ChatEvent (JObj [(''type'', JStr k), (''data'', d)]) \<longrightarrow>
      k \<noteq> ''research_start'' \<and> (\<forall>f \<in> set common_fields. carries d f)) \<and>
   (k \<noteq> ''replay_end'' \<and> k \<noteq> ''error'' \<and> parse x = Some d \<longrightarrow>
      chatStream_events parse [\<lparr>event = k, data = x\<rparr>] =
        ([JObj [(''type'', JStr k), (''data'', d)]], None)) \<and>
   (k \<noteq> ''replay_end'' \<and> k \<noteq> ''error'' \<and> parse x = Some d \<and>
    (\<exists>f \<in> set common_fields. \<not> carries d f) \<longrightarrow>
      (\<exists>y. chatStream_events parse [\<lparr>event = k, data = x\<rparr>] = ([y], None) \<and> \<not> is_ChatEvent y))"
proof -
  have a: "is_ChatEvent e \<longrightarrow>
      (\<exists>ps. event_data e = Some ps \<and> (\<forall>f \<in> set common_fields. carries (JObj ps) f))"
    using is_ChatEvent_data [of e] by auto
  have b: "is_ChatEvent (JObj [(''type'', JStr k), (''data'', d)]) \<longrightarrow>
      k \<noteq> ''research_start'' \<and> (\<forall>f \<in> set common_fields. carries d f)"
  proof
    assume e: "is_ChatEvent (JObj [(''type'', JStr k), (''data'', d)])"
    from is_ChatEvent_type [OF e] have "k \<noteq> ''research_start''" by auto
    with is_ChatEvent_carries [OF e] show "k \<noteq> ''research_start'' \<and> (\<forall>f \<in> set common_fields. carries d f)"
      by simp
  qed
  have c: "chatStream_events parse [\<lparr>event = k, data = x\<rparr>] =
        ([JObj [(''type'', JStr k), (''data'', d)]], None)"
    if "k \<noteq> ''replay_end'' \<and> k \<noteq> ''error'' \<and> parse x = Some d"
    using that by (simp add: chat_event_def)
  have d: "\<exists>y. chatStream_events parse [\<lparr>event = k, data = x\<rparr>] = ([y], None) \<and> \<not> is_ChatEvent y"
    if "k \<noteq> ''replay_end'' \<and> k \<noteq> ''error'' \<and> parse x = Some d \<and>
      (\<exists>f \<in> set common_fields. \<not> carries d f)"
  proof -
    from that b have "\<not> is_ChatEvent (JObj [(''type'', JStr k), (''data'', d)])" by blast
    with c that show ?thesis by blast
  qed
  show ?thesis using a b c d by blast
qed

theorem ChatEvent_common_fields_witness:
  "is_ChatEvent (JObj [(''type'', JStr ''message_chunk''), (''data'', JObj [(''id'', JStr ''m1''),
     (''thread_id'', JStr ''t1''), (''agent'', JStr ''reporter''), (''role'', JStr ''assistant''),
     (''content'', JStr ''hello'')])]) \<and>
   carries (JObj [(''id'', JStr ''m1''),
     (''thread_id'', JStr ''t1''), (''agent'', JStr ''reporter''), (''role'', JStr ''assistant''),
     (''content'', JStr ''hello'')]) ''agent'' \<and>
   chatStream_events example_parse [\<lparr>event = ''message_chunk'', data = Some ''1''\<rparr>] =
     ([JObj [(''type'', JStr ''message_chunk''), (''data'', JNum 1)]], None) \<and>
   \<not> is_ChatEvent (JObj [(''type'', JStr ''message_chunk''), (''data'', JNum 1)])"
proof -
  let ?ps = "[(''id'', JStr ''m1''), (''thread_id'', JStr ''t1''), (''agent'', JStr ''reporter''),
     (''role'', JStr ''assistant''), (''content'', JStr ''hello'')]"
  let ?good = "JObj [(''type'', JStr ''message_chunk''), (''data'', JObj ?ps)]"
  note T = ChatEvent_common_fields [of ?good "''message_chunk''" "JNum 1" example_parse "Some ''1''"]
  have g: "is_ChatEvent ?good"
    by (simp add: is_ChatEvent_def is_MessageChunkEvent_def is_GenericEvent_def has_prop_def
        opt_prop_def)
  have k: "''message_chunk'' \<noteq> ''replay_end''" "''message_chunk'' \<noteq> ''error''" by simp_all
  have p: "example_parse (Some ''1'') = Some (JNum 1)" by (simp add: example_parse_def)
  have nc: "\<exists>f \<in> set common_fields. \<not> carries (JNum 1) f" by (auto simp: common_fields_def)
  from T g obtain ps where ps: "event_data ?good = Some ps"
      "\<forall>f \<in> set common_fields. carries (JObj ps) f" by blast
  from ps(1) have "ps = ?ps" by simp
  with ps(2) have 1: "carries (JObj ?ps) ''agent''" by (simp add: common_fields_def)
  from T k p have 2: "chatStream_events example_parse [\<lparr>event = ''message_chunk'', data = Some ''1''\<rparr>] =
     ([JObj [(''type'', JStr ''message_chunk''), (''data'', JNum 1)]], None)" by blast
  from T k p nc obtain y where
    y: "chatStream_events example_parse [\<lparr>event = ''message_chunk'', data = Some ''1''\<rparr>] = ([y], None)"
      "\<not> is_ChatEvent y" by blast
  from y(1) 2 have "y = JObj [(''type'', JStr ''message_chunk''), (''data'', JNum 1)]" by simp
  with y(2) have 3: "\<not> is_ChatEvent (JObj [(''type'', JStr ''message_chunk''), (''data'', JNum 1)])"
    by simp
  show ?thesis using g 1 2 3 by blast
qed

text \<open>
  The claim as first stated has every payload of the wire, of every kind, carry the four
  fields. The payload of the \<^verbatim>\<open>replay_end\<close> event that ends a static replay carries no
  \<^verbatim>\<open>id\<close>, no \<^verbatim>\<open>agent\<close> and no \<^verbatim>\<open>role\<close>, and the payload of the \<^verbatim>\<open>research_start\<close> frame of the
  architecture document carries no \<^verbatim>\<open>id\<close>, no \<^verbatim>\<open>thread_id\<close> and no \<^verbatim>\<open>role\<close>; the events
  with these payloads are no values of the union.
\<close>

theorem replay_end_payload_counterexample:
  "static_replay_end_payload 45 = JObj [(''mode'', JStr ''static''), (''total_events'', JNum 45)] \<and>
   \<not> carries (static_replay_end_payload 45) ''id'' \<and>
   \<not> carries (static_replay_end_payload 45) ''agent'' \<and>
   \<not> carries (static_replay_end_payload 45) ''role'' \<and>
   \<not> is_ChatEvent (JObj [(''type'', JStr ''replay_end''), (''data'', static_replay_end_payload 45)]) \<and>
   \<not> carries documented_research_start_payload ''id'' \<and>
   \<not> carries documented_research_start_payload ''thread_id'' \<and>
   \<not> carries documented_research_start_payload ''role'' \<and>
   \<not> is_ChatEvent
      (JObj [(''type'', JStr ''research_start''), (''data'', documented_research_start_payload)])"
proof -
  have 1: "\<not> carries (static_replay_end_payload 45) ''id''"
    by (simp add: static_replay_end_payload_def)
  have "\<not> (\<forall>f \<in> set common_fields. carries (static_replay_end_payload 45) f)"
    using 1 by (simp add: common_fields_def)
  then have 2: "\<not> is_ChatEvent
      (JObj [(''type'', JStr ''replay_end''), (''data'', static_replay_end_payload 45)])"
    using is_ChatEvent_carries by blast
  have 3: "\<not> carries documented_research_start_payload ''id''"
    by (simp add: documented_research_start_payload_def)
  have "\<not> (\<forall>f \<in> set common_fields. carries documented_research_start_payload f)"
    using 3 by (simp add: common_fields_def)
  then have 4: "\<not> is_ChatEvent
      (JObj [(''type'', JStr ''research_start''), (''data'', documented_research_start_payload)])"
    using is_ChatEvent_carries by blast
  show ?thesis
    using 2 4 by (simp add: static_replay_end_payload_def documented_research_start_payload_def)
qed

section \<open>Properties of the chat client\<close>

text \<open>
  Claim C3 (amended). The replay loop of \<^verbatim>\<open>chatStream\<close> yields, in order, the events that come
  before the first event that is terminal or whose data \<^verbatim>\<open>JSON.parse\<close> rejects, each as the
  object with the \<^verbatim>\<open>type\<close> of the event and its parsed \<^verbatim>\<open>data\<close>, and nothing else. If that
  first event is \<^verbatim>\<open>replay_end\<close> the loop ends normally, as it does when the stream ends before
  such an event; if it is \<^verbatim>\<open>error\<close> the loop throws an error that carries the data of that
  event; if it is an event whose data is not JSON the loop throws the syntax error of
  \<^verbatim>\<open>JSON.parse\<close>.
\<close>

theorem chatStream_events_terminal:
  "chatStream_events parse evs =
    (map (\<lambda>e. JObj [(''type'', JStr (event e)), (''data'', the (parse (data e)))])
       (takeWhile (\<lambda>e. \<not> is_terminal e \<and> parse (data e) \<noteq> None) evs),
     case dropWhile (\<lambda>e. \<not> is_terminal e \<and> parse (data e) \<noteq> None) evs of
       [] \<Rightarrow> None
     | t # rest \<Rightarrow>
         if event t = ''replay_end'' then None
         else if event t = ''error'' then Some (TaskExecutionError (data t))
         else Some JsonSyntaxError)"
proof (induction evs)
  case Nil
  show ?case by simp
next
  case (Cons e es)
  show ?case
  proof (cases "is_terminal e")
    case True
    then show ?thesis by (auto simp: is_terminal_def)
  next
    case False
    show ?thesis
    proof (cases "parse (data e)")
      case None
      with False show ?thesis by (simp add: is_terminal_def)
    next
      case (Some d)
      with False Cons.IH show ?thesis by (simp add: is_terminal_def chat_event_def)
    qed
  qed
qed

theorem chatStream_events_terminal_witness:
  "chatStream_events example_parse
     [\<lparr>event = ''message_chunk'', data = Some ''1''\<rparr>, \<lparr>event = ''error'', data = Some ''boom''\<rparr>,
      \<lparr>event = ''message_chunk'', data = Some ''1''\<rparr>]
   = ([JObj [(''type'', JStr ''message_chunk''), (''data'', JNum 1)]],
      Some (TaskExecutionError (Some ''boom'')))"
  using chatStream_events_terminal [of example_parse
     "[\<lparr>event = ''message_chunk'', data = Some ''1''\<rparr>, \<lparr>event = ''error'', data = Some ''boom''\<rparr>,
      \<lparr>event = ''message_chunk'', data = Some ''1''\<rparr>]"]
  by (simp add: is_terminal_def example_parse_def)

text \<open>
  The claim as first stated has every event before the first terminal event yielded. A
  stream of two \<^verbatim>\<open>message_chunk\<close> events, the first with the data \<^verbatim>\<open>oops\<close>, has no terminal
  event; the loop throws at the first event and yields neither of them.
\<close>

theorem chatStream_events_json_counterexample:
  "\<not> is_terminal \<lparr>event = ''message_chunk'', data = Some ''oops''\<rparr> \<and>
   \<not> is_terminal \<lparr>event = ''message_chunk'', data = Some ''1''\<rparr> \<and>
   example_parse (Some ''1'') = Some (JNum 1) \<and>
   chatStream_events example_parse
     [\<lparr>event = ''message_chunk'', data = Some ''oops''\<rparr>,
      \<lparr>event = ''message_chunk'', data = Some ''1''\<rparr>]
   = ([], Some JsonSyntaxError)"
  by (simp add: is_terminal_def example_parse_def)

lemma quickCheck_loop_requests:
  "quickCheck_loop E params task_id k = (rs, r) \<Longrightarrow>
   \<forall>x \<in> set rs. x = quickCheck_request params task_id"
proof (induction E params task_id k arbitrary: rs r rule: quickCheck_loop.induct)
  case (1 E params task_id k)
  show ?case
  proof (cases "k < maxQuickChecks \<and> \<not> aborted_quick E k \<and> \<not> quickCheck_started (quick_check E k)")
    case True
    obtain rs' r' where nx: "quickCheck_loop E params task_id (k + 1) = (rs', r')" by force
    with nx True "1.prems" have "rs = quickCheck_request params task_id # rs'"
      by (subst (asm) quickCheck_loop.simps) simp
    moreover have "\<forall>x \<in> set rs'. x = quickCheck_request params task_id"
      using True nx by (intro "1.IH") simp_all
    ultimately show ?thesis by simp
  next
    case False
    with "1.prems" show ?thesis
      by (subst (asm) quickCheck_loop.simps) (auto split: if_splits)
  qed
qed

lemma statusCheck_loop_requests:
  "statusCheck_loop E task_id k = (rs, r) \<Longrightarrow> \<forall>x \<in> set rs. x = status_request task_id"
proof (induction E task_id k arbitrary: rs r rule: statusCheck_loop.induct)
  case (1 E task_id k)
  show ?case
  proof (cases "k < maxStatusChecks \<and> \<not> aborted_status E k \<and> \<not> statusCheck_started (status_check E k)")
    case True
    obtain rs' r' where nx: "statusCheck_loop E task_id (k + 1) = (rs', r')" by force
    with nx True "1.prems" have "rs = status_request task_id # rs'"
      by (subst (asm) statusCheck_loop.simps) simp
    moreover have "\<forall>x \<in> set rs'. x = status_request task_id"
      using True nx by (intro "1.IH") simp_all
    ultimately show ?thesis by simp
  next
    case False
    with "1.prems" show ?thesis
      by (subst (asm) statusCheck_loop.simps) (auto split: if_splits)
  qed
qed

lemma chatStream_async_requests:
  assumes "thrown (chatStream_async E userMessage params) = None"
  shows "\<exists>task_id middle.
    async_response E = Response True (Some task_id) \<and>
    requests (chatStream_async E userMessage params) =
      async_request userMessage params # middle @ [replay_request params task_id] \<and>
    (\<forall>r \<in> set middle. r = quickCheck_request params task_id \<or> r = status_request task_id)"
proof (cases "async_response E")
  case Rejected
  with assms show ?thesis by (simp add: chatStream_async_def)
next
  case (Response ok parsed)
  with assms have ok: ok by (auto simp: chatStream_async_def Let_def split: if_splits)
  with assms Response obtain task_id where t: "parsed = Some task_id"
    by (cases parsed) (auto simp: chatStream_async_def Let_def)
  obtain rs1 r1 where q: "quickCheck_loop E params task_id 0 = (rs1, r1)" by force
  with assms Response ok t obtain started where r1: "r1 = Inr started"
    by (cases r1) (auto simp: chatStream_async_def Let_def)
  obtain rs2 r2 where st: "(if \<not> started then statusCheck_loop E task_id 0 else ([], Inr started)) = (rs2, r2)"
    by force
  with assms Response ok t q r1 obtain started' where r2: "r2 = Inr started'"
    by (cases r2) (auto simp: chatStream_async_def Let_def)
  have 1: "\<forall>x \<in> set rs1. x = quickCheck_request params task_id"
    using q by (rule quickCheck_loop_requests)
  have 2: "\<forall>x \<in> set rs2. x = status_request task_id"
    using st statusCheck_loop_requests [of E task_id 0 rs2 r2] by (auto split: if_splits)
  have "requests (chatStream_async E userMessage params) =
      async_request userMessage params # (rs1 @ rs2) @ [replay_request params task_id]"
    using Response ok t q r1 st r2
    by (simp add: chatStream_async_def Let_def split: sum.splits prod.splits)
  with 1 2 Response ok t show ?thesis by fastforce
qed


text \<open>
  Claim C7 (amended). Let \<^verbatim>\<open>chatStream\<close> run outside the mock and replay modes (the build is not
  static-only and the query string of the page contains neither \<^verbatim>\<open>mock\<close> nor \<^verbatim>\<open>replay=\<close>) and
  return without an error. Then its first request is the POST of the task configuration to
  \<^verbatim>\<open>chat/async\<close>, that request was answered with a task id, and its last request is the GET of
  \<^verbatim>\<open>chat/replay\<close> with the thread id of the parameters, that task id as \<^verbatim>\<open>query_id\<close>,
  \<^verbatim>\<open>continuous\<close> set to \<^verbatim>\<open>"true"\<close> and \<^verbatim>\<open>offset\<close> set to \<^verbatim>\<open>"0"\<close>; the requests in between are
  quick checks and status checks of the same task.
\<close>

theorem chatStream_request_order:
  assumes "\<not> static_website_only E"
    and "\<not> str_includes (location_search E) ''mock''"
    and "\<not> str_includes (location_search E) ''replay=''"
    and "thrown (chatStream E userMessage params) = None"
  shows "\<exists>task_id middle.
    async_response E = Response True (Some task_id) \<and>
    requests (chatStream E userMessage params) =
      async_request userMessage params # middle @ [replay_request params task_id] \<and>
    (\<forall>r \<in> set middle. r = quickCheck_request params task_id \<or> r = status_request task_id)"
proof -
  from assms(1-3) have "chatStream E userMessage params = chatStream_async E userMessage params"
    by (simp add: chatStream_def)
  with assms(4) show ?thesis using chatStream_async_requests [of E userMessage params] by simp
qed

lemma example_stream:
  "fetchStream 200 (Some example_body)
   = Inr [\<lparr>event = ''message_chunk'', data = Some ''1''\<rparr>, \<lparr>event = ''replay_end'', data = Some ''0''\<rparr>]"
  using fetchStream_loop_drain [of "[]" example_body]
    drain_frames [of "[(''message_chunk'', ''1''), (''replay_end'', ''0'')]"]
  by (simp add: fetchStream_def sse_frame_def sse_chunk_def frame_event_def single_line_def
      example_body_def)

lemma example_run:
  "chatStream example_env ''hi'' example_params =
     \<lparr>requests = [async_request ''hi'' example_params, quickCheck_request example_params ''task-1'',
                  replay_request example_params ''task-1''],
      yielded = [chat_event ''message_chunk'' (JNum 1)], thrown = None\<rparr>"
  by (simp add: chatStream_def chatStream_async_def example_env_def str_includes_def
      quickCheck_loop.simps maxQuickChecks_def open_stream_def example_stream Let_def)

theorem chatStream_request_order_witness:
  "\<exists>task_id middle.
    async_response example_env = Response True (Some task_id) \<and>
    requests (chatStream example_env ''hi'' example_params) =
      async_request ''hi'' example_params # middle @ [replay_request example_params task_id] \<and>
    (\<forall>r \<in> set middle. r = quickCheck_request example_params task_id \<or> r = status_request task_id)"
proof -
  have "\<not> static_website_only example_env" "\<not> str_includes (location_search example_env) ''mock''"
    "\<not> str_includes (location_search example_env) ''replay=''"
    by (simp_all add: example_env_def str_includes_def)
  moreover have "thrown (chatStream example_env ''hi'' example_params) = None"
    by (simp add: example_run)
  ultimately show ?thesis by (rule chatStream_request_order)
qed

text \<open>
  The claim as first stated covers every invocation that is not a mock one. With the page
  opened as \<^verbatim>\<open>?replay=abc\<close> the run is not a mock run and returns without an error, and its only
  request is the GET of \<^verbatim>\<open>chat/replay\<close> for the recorded thread: nothing is posted.
\<close>

theorem chatStream_replay_counterexample:
  "\<not> static_website_only replay_env \<and>
   \<not> str_includes (location_search replay_env) ''mock'' \<and>
   thrown (chatStream replay_env ''hi'' example_params) = None \<and>
   requests (chatStream replay_env ''hi'' example_params) = [api_replay_request ''abc''] \<and>
   async_request ''hi'' example_params \<notin> set (requests (chatStream replay_env ''hi'' example_params))"
  by (simp add: chatStream_def chatReplayStreamFromAPI_def replay_env_def example_env_def
      str_includes_def open_stream_def example_stream api_replay_request_def async_request_def)

text \<open>
  Claim C8. \<^verbatim>\<open>checkThreadRunningTask\<close> never throws, for any thread id and any behaviour of the
  server: when the request is rejected or the response is not OK it returns the object with
  \<^verbatim>\<open>has_running_task\<close> false, and when the response is OK and its body is JSON it returns the
  parsed body as it is.
\<close>

theorem checkThreadRunningTask_never_raises:
  "(\<exists>j. checkThreadRunningTask fetch tid = Inr j) \<and>
   (fetch (''threads/'' @ tid @ ''/running-task'') = Rejected \<or>
    (\<exists>parsed. fetch (''threads/'' @ tid @ ''/running-task'') = Response False parsed) \<longrightarrow>
      checkThreadRunningTask fetch tid = Inr (JObj [(''has_running_task'', JBool False)])) \<and>
   (fetch (''threads/'' @ tid @ ''/running-task'') = Response True (Some j) \<longrightarrow>
      checkThreadRunningTask fetch tid = Inr j)"
  by (auto simp: checkThreadRunningTask_def checkThreadRunningTask_try_def
      split: fetch_result.splits option.splits sum.splits if_splits)

theorem checkThreadRunningTask_never_raises_witness:
  "checkThreadRunningTask
     (\<lambda>u. if u = ''threads/t1/running-task''
           then Response True (Some (JObj [(''has_running_task'', JBool True), (''task_id'', JStr ''x'')]))
           else Rejected) ''t1''
     = Inr (JObj [(''has_running_task'', JBool True), (''task_id'', JStr ''x'')]) \<and>
   checkThreadRunningTask
     (\<lambda>u. if u = ''threads/t1/running-task''
           then Response True (Some (JObj [(''has_running_task'', JBool True), (''task_id'', JStr ''x'')]))
           else Rejected) ''t2''
     = Inr (JObj [(''has_running_task'', JBool False)])"
  using checkThreadRunningTask_never_raises [of
     "\<lambda>u. if u = ''threads/t1/running-task''
           then Response True (Some (JObj [(''has_running_task'', JBool True), (''task_id'', JStr ''x'')]))
           else Rejected" "''t1''" "JObj [(''has_running_task'', JBool True), (''task_id'', JStr ''x'')]"]
    checkThreadRunningTask_never_raises [of
     "\<lambda>u. if u = ''threads/t1/running-task''
           then Response True (Some (JObj [(''has_running_task'', JBool True), (''task_id'', JStr ''x'')]))
           else Rejected" "''t2''" "JNull"]
  by simp



section \<open>Properties of the chat history\<close>

lemma findIndex_Some:
  "findIndex P xs = Some i \<Longrightarrow> i < length xs \<and> P (xs ! i)"
proof (induction xs arbitrary: i)
  case Nil
  then show ?case by simp
next
  case (Cons x xs)
  then show ?case by (cases "P x") auto
qed

lemma findIndex_None: "findIndex P xs = None \<longleftrightarrow> (\<forall>x \<in> set xs. \<not> P x)"
  by (induction xs) auto

lemma threadId_entry: "threadId (chatHistory_entry now tid msgs) = tid"
  by (simp add: chatHistory_entry_def Let_def)

lemma map_threadId_update:
  "i < length hs \<Longrightarrow> threadId (hs ! i) = threadId e \<Longrightarrow>
   map threadId (hs[i := e]) = map threadId hs"
  by (simp add: map_update list_update_same_conv)

lemma saveChatHistory_written:
  assumes "msgs \<noteq> []" "isClient" "setItem_ok"
  shows "persisted (saveChatHistory isClient setItem_ok now tid msgs st) =
     take 50 (case findIndex (\<lambda>h. threadId h = tid) (persisted st) of
                Some i \<Rightarrow> (persisted st)[i := chatHistory_entry now tid msgs]
              | None \<Rightarrow> chatHistory_entry now tid msgs # persisted st)"
  using assms by (simp add: saveChatHistory_def persisted_def Let_def cong: option.case_cong)

lemma saveChatHistory_unchanged:
  "msgs = [] \<or> \<not> isClient \<or> \<not> setItem_ok \<Longrightarrow>
   saveChatHistory isClient setItem_ok now tid msgs st = st"
  by (auto simp: saveChatHistory_def Let_def)

lemma history_ok_saveChatHistory:
  assumes "history_ok st"
  shows "history_ok (saveChatHistory isClient setItem_ok now tid msgs st)"
proof (cases "msgs \<noteq> [] \<and> isClient \<and> setItem_ok")
  case False
  then have "saveChatHistory isClient setItem_ok now tid msgs st = st"
    by (intro saveChatHistory_unchanged) auto
  with assms show ?thesis by simp
next
  case True
  let ?hs = "persisted st"
  let ?e = "chatHistory_entry now tid msgs"
  from assms have d: "distinct (map threadId ?hs)" by (simp add: history_ok_def)
  have "distinct (map threadId (case findIndex (\<lambda>h. threadId h = tid) ?hs of
                Some i \<Rightarrow> ?hs[i := ?e] | None \<Rightarrow> ?e # ?hs))"
  proof (cases "findIndex (\<lambda>h. threadId h = tid) ?hs")
    case None
    then have "tid \<notin> set (map threadId ?hs)" by (auto simp: findIndex_None)
    with d None show ?thesis by (simp add: threadId_entry)
  next
    case (Some i)
    then have "i < length ?hs" "threadId (?hs ! i) = threadId ?e"
      using findIndex_Some [OF Some] by (simp_all add: threadId_entry)
    then have "map threadId (?hs[i := ?e]) = map threadId ?hs" by (rule map_threadId_update)
    with d Some show ?thesis by simp
  qed
  then have "distinct (map threadId (take 50 (case findIndex (\<lambda>h. threadId h = tid) ?hs of
                Some i \<Rightarrow> ?hs[i := ?e] | None \<Rightarrow> ?e # ?hs)))"
    by (simp add: take_map [symmetric] distinct_take del: take_map)
  with True show ?thesis
    by (simp add: history_ok_def saveChatHistory_written)
qed

lemma history_ok_save_all:
  "history_ok st \<Longrightarrow> history_ok (save_all isClient calls st)"
  by (induction calls arbitrary: st) (simp_all add: history_ok_saveChatHistory)

lemma findIndex_first:
  "findIndex P xs = Some i \<Longrightarrow> \<forall>j < i. \<not> P (xs ! j)"
proof (induction xs arbitrary: i)
  case Nil
  then show ?case by simp
next
  case (Cons x xs)
  show ?case
  proof (cases "P x")
    case True
    with Cons.prems show ?thesis by simp
  next
    case False
    with Cons.prems obtain k where k: "findIndex P xs = Some k" "i = Suc k" by auto
    from Cons.IH [OF k(1)] False k(2) show ?thesis by (auto simp: less_Suc_eq_0_disj)
  qed
qed

text \<open>
  Claim C10 (amended). The persisted chat history keeps at most 50 entries and at most one
  entry per thread: every call of \<^verbatim>\<open>saveChatHistory\<close> preserves this, so it holds after every
  sequence of calls that starts from an empty store. A call with an empty message list,
  outside the browser, or whose write to the store fails leaves the stored value unchanged.
  A call with a non-empty message list, in the browser and with a write that succeeds,
  leaves at most 50 entries: it puts the new entry at the front when the thread has no
  entry yet, it replaces the first entry of the thread in place when it has one, and it
  keeps the first 50 entries of the result.
\<close>

theorem saveChatHistory_history:
  "(history_ok st \<longrightarrow> history_ok (saveChatHistory isClient setItem_ok now tid msgs st)) \<and>
   history_ok (save_all isClient calls Absent) \<and>
   (msgs = [] \<or> \<not> isClient \<or> \<not> setItem_ok \<longrightarrow>
      saveChatHistory isClient setItem_ok now tid msgs st = st) \<and>
   (msgs \<noteq> [] \<and> isClient \<and> setItem_ok \<longrightarrow>
      length (persisted (saveChatHistory isClient setItem_ok now tid msgs st)) \<le> 50 \<and>
      (tid \<notin> threadId ` set (persisted st) \<longrightarrow>
         persisted (saveChatHistory isClient setItem_ok now tid msgs st) =
           take 50 (chatHistory_entry now tid msgs # persisted st)) \<and>
      (tid \<in> threadId ` set (persisted st) \<longrightarrow>
         (\<exists>i < length (persisted st).
            threadId (persisted st ! i) = tid \<and>
            (\<forall>j < i. threadId (persisted st ! j) \<noteq> tid) \<and>
            persisted (saveChatHistory isClient setItem_ok now tid msgs st) =
              take 50 ((persisted st)[i := chatHistory_entry now tid msgs]))))"
proof -
  let ?st' = "saveChatHistory isClient setItem_ok now tid msgs st"
  let ?hs = "persisted st"
  let ?e = "chatHistory_entry now tid msgs"
  have 1: "history_ok st \<longrightarrow> history_ok ?st'" by (simp add: history_ok_saveChatHistory)
  have 2: "history_ok (save_all isClient calls Absent)"
    by (rule history_ok_save_all) (simp add: history_ok_def persisted_def)
  have 3: "msgs = [] \<or> \<not> isClient \<or> \<not> setItem_ok \<longrightarrow> ?st' = st"
    using saveChatHistory_unchanged [of msgs isClient setItem_ok now tid st] by blast
  have 4: "length (persisted ?st') \<le> 50" if "msgs \<noteq> [] \<and> isClient \<and> setItem_ok"
    using that by (simp add: saveChatHistory_written)
  have 5: "persisted ?st' = take 50 (?e # ?hs)"
    if "msgs \<noteq> [] \<and> isClient \<and> setItem_ok" "tid \<notin> threadId ` set ?hs"
  proof -
    from that(2) have "findIndex (\<lambda>h. threadId h = tid) ?hs = None"
      by (auto simp: findIndex_None)
    with that(1) show ?thesis by (simp add: saveChatHistory_written)
  qed
  have 6: "\<exists>i < length ?hs. threadId (?hs ! i) = tid \<and> (\<forall>j < i. threadId (?hs ! j) \<noteq> tid) \<and>
      persisted ?st' = take 50 (?hs[i := ?e])"
    if "msgs \<noteq> [] \<and> isClient \<and> setItem_ok" "tid \<in> threadId ` set ?hs"
  proof -
    from that(2) obtain i where i: "findIndex (\<lambda>h. threadId h = tid) ?hs = Some i"
      using findIndex_None [of "\<lambda>h. threadId h = tid" ?hs]
      by (cases "findIndex (\<lambda>h. threadId h = tid) ?hs") auto
    from findIndex_Some [OF i] have "i < length ?hs" "threadId (?hs ! i) = tid" by simp_all
    moreover from findIndex_first [OF i] have "\<forall>j < i. threadId (?hs ! j) \<noteq> tid" by simp
    moreover from that(1) i have "persisted ?st' = take 50 (?hs[i := ?e])"
      by (simp add: saveChatHistory_written)
    ultimately show ?thesis by blast
  qed
  show ?thesis using 1 2 3 4 5 6 by blast
qed

theorem saveChatHistory_history_witness:
  "history_ok example_store \<and>
   history_ok (saveChatHistory True True ''2025-01-15T10:32:00'' ''thread-b'' [example_message] example_store) \<and>
   persisted (saveChatHistory True True ''2025-01-15T10:32:00'' ''thread-b'' [example_message] example_store) =
     [chatHistory_entry ''2025-01-15T10:30:00'' ''thread-a'' [example_message],
      chatHistory_entry ''2025-01-15T10:32:00'' ''thread-b'' [example_message]] \<and>
   persisted (saveChatHistory True True ''2025-01-15T10:33:00'' ''thread-c'' [example_message] example_store) =
     [chatHistory_entry ''2025-01-15T10:33:00'' ''thread-c'' [example_message],
      chatHistory_entry ''2025-01-15T10:30:00'' ''thread-a'' [example_message],
      chatHistory_entry ''2025-01-15T10:31:00'' ''thread-b'' [example_message]]"
proof -
  have ok: "history_ok example_store"
    by (simp add: history_ok_def persisted_def example_store_def threadId_entry)
  have hs: "persisted example_store =
     [chatHistory_entry ''2025-01-15T10:30:00'' ''thread-a'' [example_message],
      chatHistory_entry ''2025-01-15T10:31:00'' ''thread-b'' [example_message]]"
    by (simp add: persisted_def example_store_def)
  have seen: "''thread-b'' \<in> threadId ` set (persisted example_store)"
    "''thread-c'' \<notin> threadId ` set (persisted example_store)"
    by (simp_all add: hs threadId_entry)
  from ok seen(1)
    saveChatHistory_history [of example_store True True "''2025-01-15T10:32:00''" "''thread-b''"
        "[example_message]" "[]"]
  obtain i where i: "i < length (persisted example_store)"
      "threadId (persisted example_store ! i) = ''thread-b''"
      "persisted (saveChatHistory True True ''2025-01-15T10:32:00'' ''thread-b'' [example_message] example_store) =
        take 50 ((persisted example_store)[i := chatHistory_entry ''2025-01-15T10:32:00'' ''thread-b'' [example_message]])"
    and ok': "history_ok (saveChatHistory True True ''2025-01-15T10:32:00'' ''thread-b'' [example_message] example_store)"
    by auto
  from i(1,2) have "i = 1" by (auto simp: hs threadId_entry less_Suc_eq)
  with i(3) have b: "persisted (saveChatHistory True True ''2025-01-15T10:32:00'' ''thread-b'' [example_message] example_store) =
     [chatHistory_entry ''2025-01-15T10:30:00'' ''thread-a'' [example_message],
      chatHistory_entry ''2025-01-15T10:32:00'' ''thread-b'' [example_message]]"
    by (simp add: hs)
  from seen(2)
    saveChatHistory_history [of example_store True True "''2025-01-15T10:33:00''" "''thread-c''"
        "[example_message]" "[]"]
  have c: "persisted (saveChatHistory True True ''2025-01-15T10:33:00'' ''thread-c'' [example_message] example_store) =
     take 50 (chatHistory_entry ''2025-01-15T10:33:00'' ''thread-c'' [example_message] # persisted example_store)"
    by simp
  show ?thesis using ok ok' b c by (simp add: hs)
qed

text \<open>
  The claim as first stated has every call with a non-empty message list insert a thread not
  seen before at the front. When the write to the store fails, the exception is caught and
  the stored history stays as it was: the new thread is not in it.
\<close>

theorem saveChatHistory_write_fails_counterexample:
  "[example_message] \<noteq> [] \<and>
   ''thread-c'' \<notin> threadId ` set (persisted example_store) \<and>
   saveChatHistory True False ''2025-01-15T10:33:00'' ''thread-c'' [example_message] example_store
     = example_store \<and>
   ''thread-c'' \<notin> threadId ` set (persisted
      (saveChatHistory True False ''2025-01-15T10:33:00'' ''thread-c'' [example_message] example_store))"
  by (simp add: saveChatHistory_def persisted_def example_store_def threadId_entry Let_def)

section \<open>Properties of the offsets\<close>













section \<open>Properties of the task state machine\<close>

lemma apply_op_step: "apply_op s opn = s \<or> edge s (apply_op s opn)"
  by (cases s; cases opn) simp_all

lemma apply_op_terminal: "terminal s \<Longrightarrow> apply_op s opn = s"
  by (cases s; cases opn) simp_all

lemma observed_path: "is_path (observed s ops)"
proof (induction ops arbitrary: s)
  case Nil
  show ?case by simp
next
  case (Cons opn ops)
  have "is_path (observed (apply_op s opn) ops)" by (rule Cons.IH)
  then show ?case using apply_op_step [of s opn] by (cases ops) auto
qed

lemma observed_terminal: "terminal s \<Longrightarrow> \<forall>x \<in> set (observed s ops). x = s"
  by (induction ops arbitrary: s) (simp_all add: apply_op_terminal)

text \<open>
  Claim C6. Whatever operations are applied to a task, from its creation as pending or from
  any status, the status values observed form a path in the graph of the specification
  (pending may go to running or cancelled; running may go to completed, failed or cancelled);
  and once the status is completed, failed or cancelled, no later operation changes it.
\<close>

theorem task_status_path:
  "is_path (observed pending ops) \<and>
   is_path (observed s ops) \<and>
   (terminal s \<longrightarrow> (\<forall>x \<in> set (observed s ops). x = s)) \<and>
   (terminal s \<longleftrightarrow> s = completed \<or> s = failed \<or> s = cancelled) \<and>
   (edge s s' \<longleftrightarrow> (s = pending \<and> (s' = running \<or> s' = cancelled)) \<or>
                   (s = running \<and> (s' = completed \<or> s' = failed \<or> s' = cancelled)))"
proof -
  have "terminal s \<longleftrightarrow> s = completed \<or> s = failed \<or> s = cancelled" by (cases s) simp_all
  moreover have "edge s s' \<longleftrightarrow> (s = pending \<and> (s' = running \<or> s' = cancelled)) \<or>
                   (s = running \<and> (s' = completed \<or> s' = failed \<or> s' = cancelled))"
    by (cases s; cases s') simp_all
  ultimately show ?thesis using observed_path observed_terminal by blast
qed

theorem task_status_path_witness:
  "observed pending [Admit, Cancel, Complete] = [pending, running, cancelled, cancelled] \<and>
   is_path (observed pending [Admit, Cancel, Complete]) \<and>
   observed cancelled [Admit, Complete] = [cancelled, cancelled, cancelled]"
  using task_status_path [of "[Admit, Cancel, Complete]" pending running]
    task_status_path [of "[Admit, Complete]" cancelled running]
  by simp



end
